theory Spec2Isabelle
  imports Main
begin

section \<open>Python values and action records\<close>

text \<open>
  The tracker stores every action as a Python dictionary with string keys and values of
  any type. The values that the agents of this repository record are strings, integers,
  floats and \<open>None\<close>. A float is represented by the text that \<open>str\<close> prints for it
  (Python's float printing is injective), so that formatting it needs no arithmetic.
\<close>

datatype pyval =
    PNone
  | PBool bool
  | PInt int
  | PFloat string
  | PStr string

type_synonym action = "string \<rightharpoonup> pyval"

section \<open>utils/action\_tracker.py\<close>

text \<open>
  The three attributes of \<open>ActionTracker\<close>. The two times are \<open>None\<close> until
  \<open>start\<close> and \<open>stop\<close> set them; a time is the text \<open>datetime.now()\<close> gave, passed
  in by the caller of each operation that reads the clock.
\<close>

datatype py_error = TypeError

record tracker =
  actions :: "action list"
  start_time :: "string option"
  end_time :: "string option"

definition init_tracker :: tracker where
  "init_tracker = \<lparr>actions = [], start_time = None, end_time = None\<rparr>"

definition start :: "string \<Rightarrow> tracker \<Rightarrow> tracker" where
  "start now s = s\<lparr>start_time := Some now, actions := []\<rparr>"

definition stop :: "string \<Rightarrow> tracker \<Rightarrow> tracker" where
  "stop now s = s\<lparr>end_time := Some now\<rparr>"

text \<open>
  \<open>def add_action(self, action_type: str, **kwargs)\<close>. A keyword argument named
  \<open>action_type\<close> or \<open>self\<close> collides with a parameter: Python raises \<open>TypeError\<close>
  before the body runs, and the tracker is as it was. Otherwise the body builds
  \<open>{"type": action_type, "timestamp": now, **kwargs}\<close>, where a key of \<open>kwargs\<close>
  overrides the two fixed keys, as \<open>++\<close> on maps does, and appends it to the list.
  The result is the outcome of the call and the tracker after it.
\<close>

definition add_action ::
    "string \<Rightarrow> string \<Rightarrow> action \<Rightarrow> tracker \<Rightarrow> (py_error + unit) \<times> tracker" where
  "add_action now action_type kwargs s =
     (if kwargs ''action_type'' \<noteq> None \<or> kwargs ''self'' \<noteq> None then (Inl TypeError, s)
      else (Inr (),
            s\<lparr>actions := actions s @
               [[''type'' \<mapsto> PStr action_type, ''timestamp'' \<mapsto> PStr now] ++ kwargs]\<rparr>))"

definition add_navigation :: "string \<Rightarrow> string \<Rightarrow> tracker \<Rightarrow> (py_error + unit) \<times> tracker" where
  "add_navigation now url s = add_action now ''navigate'' [''url'' \<mapsto> PStr url] s"






definition get_actions :: "tracker \<Rightarrow> action list" where
  "get_actions s = actions s"

definition clear :: "tracker \<Rightarrow> tracker" where
  "clear s = s\<lparr>actions := [], start_time := None, end_time := None\<rparr>"

text \<open>
  One append call on the tracker: \<open>add_action\<close> itself or one of the six helpers, with
  the arguments of the call.
\<close>

datatype append_call =
    AddAction string action
  | AddNavigation string
  | AddClick string string
  | AddFill string string
  | AddPress string string
  | AddWait string pyval pyval
  | AddSleep pyval




fun call_type :: "append_call \<Rightarrow> string" where
  "call_type (AddAction ty kw) = ty"
| "call_type (AddNavigation url) = ''navigate''"
| "call_type (AddClick sel et) = ''click''"
| "call_type (AddFill sel txt) = ''fill''"
| "call_type (AddPress sel k) = ''press''"
| "call_type (AddWait wt t sel) = ''wait''"
| "call_type (AddSleep secs) = ''sleep''"

fun call_kwargs :: "append_call \<Rightarrow> action" where
  "call_kwargs (AddAction ty kw) = kw"
| "call_kwargs (AddNavigation url) = [''url'' \<mapsto> PStr url]"
| "call_kwargs (AddClick sel et) = [''selector'' \<mapsto> PStr sel, ''element_type'' \<mapsto> PStr et]"
| "call_kwargs (AddFill sel txt) = [''selector'' \<mapsto> PStr sel, ''text'' \<mapsto> PStr txt]"
| "call_kwargs (AddPress sel k) = [''selector'' \<mapsto> PStr sel, ''key'' \<mapsto> PStr k]"
| "call_kwargs (AddWait wt t sel) =
     [''wait_type'' \<mapsto> PStr wt, ''timeout'' \<mapsto> t, ''selector'' \<mapsto> sel]"
| "call_kwargs (AddSleep secs) = [''seconds'' \<mapsto> secs]"

definition record_of :: "string \<times> append_call \<Rightarrow> action" where
  "record_of c =
     [''type'' \<mapsto> PStr (call_type (snd c)), ''timestamp'' \<mapsto> PStr (fst c)]
       ++ call_kwargs (snd c)"



section \<open>utils/script\_generator.py\<close>

subsection \<open>Python primitives used by the generator\<close>

text \<open>\<open>action.get(key, default)\<close>.\<close>

definition dict_get :: "action \<Rightarrow> string \<Rightarrow> pyval \<Rightarrow> pyval" where
  "dict_get action key dflt = (case action key of None \<Rightarrow> dflt | Some v \<Rightarrow> v)"

text \<open>Decimal digits of a natural number and of an integer, as \<open>str\<close> prints them.\<close>

definition digit :: "nat \<Rightarrow> char" where
  "digit n = ''0123456789'' ! n"

fun show_nat :: "nat \<Rightarrow> string" where
  "show_nat n = (if n < 10 then [digit n] else show_nat (n div 10) @ [digit (n mod 10)])"

declare show_nat.simps [simp del]

definition show_int :: "int \<Rightarrow> string" where
  "show_int i = (if i < 0 then CHR ''-'' # show_nat (nat (- i)) else show_nat (nat i))"

text \<open>What an f-string puts in place of \<open>{v}\<close>: \<open>str(v)\<close>.\<close>

fun py_str :: "pyval \<Rightarrow> string" where
  "py_str PNone = ''None''"
| "py_str (PBool b) = (if b then ''True'' else ''False'')"
| "py_str (PInt i) = show_int i"
| "py_str (PFloat r) = r"
| "py_str (PStr s) = s"

text \<open>Truth value of a Python value, as \<open>and\<close> and \<open>if\<close> test it.\<close>

fun py_truthy :: "pyval \<Rightarrow> bool" where
  "py_truthy PNone = False"
| "py_truthy (PBool b) = b"
| "py_truthy (PInt i) = (i \<noteq> 0)"
| "py_truthy (PFloat r) = (r \<noteq> ''0.0'' \<and> r \<noteq> ''-0.0'')"
| "py_truthy (PStr s) = (s \<noteq> [])"

text \<open>\<open>needle in hay\<close> on two strings: \<open>needle\<close> occurs in \<open>hay\<close> as a contiguous run.\<close>

fun starts_with :: "string \<Rightarrow> string \<Rightarrow> bool" where
  "starts_with [] hay = True"
| "starts_with (c # cs) [] = False"
| "starts_with (c # cs) (h # hs) = (c = h \<and> starts_with cs hs)"

fun str_contains :: "string \<Rightarrow> string \<Rightarrow> bool" where
  "str_contains needle [] = (needle = [])"
| "str_contains needle (h # hs) = (starts_with needle (h # hs) \<or> str_contains needle hs)"

text \<open>
  \<open>str.lower\<close>, on strings whose characters are the code points below 256: the
  letters A to Z and the capital letters of Latin-1 (192 to 222, the multiplication sign
  215 apart) move up by 32, every other character is kept.
\<close>

definition lower_char :: "char \<Rightarrow> char" where
  "lower_char c =
     (let n = (of_char c :: nat)
      in if (65 \<le> n \<and> n \<le> 90) \<or> (192 \<le> n \<and> n \<le> 222 \<and> n \<noteq> 215)
         then char_of (n + 32) else c)"

definition lower :: "string \<Rightarrow> string" where
  "lower s = map lower_char s"

text \<open>
  The test of the click branch,
  \<open>"product_image" in element_type or "image" in element_type.lower()\<close>. On a value
  that is not a string the \<open>in\<close> raises \<open>TypeError\<close>.
\<close>

fun is_image_type :: "pyval \<Rightarrow> py_error + bool" where
  "is_image_type (PStr s) =
     Inr (str_contains ''product_image'' s \<or> str_contains ''image'' (lower s))"
| "is_image_type v = Inl TypeError"

text \<open>\<open>"\n".join(lines)\<close>.\<close>

fun join_lines :: "string list \<Rightarrow> string" where
  "join_lines [] = []"
| "join_lines [l] = l"
| "join_lines (l # ls) = l @ CHR 0x0A # join_lines ls"

subsection \<open>The template of each action\<close>

definition indent :: string where
  "indent = ''        ''"

definition step_prefix :: "nat \<Rightarrow> string" where
  "step_prefix i = indent @ ''# Step '' @ show_nat (i + 1) @ '': ''"

definition navigate_lines :: "nat \<Rightarrow> action \<Rightarrow> string list" where
  \<open>navigate_lines i action =
     (let url = py_str (dict_get action ''url'' (PStr [])) in
      [step_prefix i @ ''Navigate to '' @ url,
       indent @ ''await page.goto("'' @ url @ ''", wait_until="networkidle")'',
       indent @ ''await asyncio.sleep(2)'',
       []])\<close>

definition image_click_lines :: "string list" where
  \<open>image_click_lines =
     [indent @ ''# Find product image (using flexible selector)'',
      indent @ ''images = await page.query_selector_all("img")'',
      indent @ ''for img in images:'',
      indent @ ''    try:'',
      indent @ ''        is_visible = await img.is_visible()'',
      indent @ ''        if is_visible:'',
      indent @ ''            await img.scroll_into_view_if_needed()'',
      indent @ ''            await img.click()'',
      indent @ ''            break'',
      indent @ ''    except:'',
      indent @ ''        continue'',
      indent @ ''await asyncio.sleep(2)'',
      indent @ ''await page.wait_for_load_state("networkidle", timeout=10000)'',
      []]\<close>

definition selector_wait_line :: "string \<Rightarrow> string" where
  \<open>selector_wait_line selector =
     indent @ ''element = await page.wait_for_selector("'' @ selector @ ''", timeout=5000)''\<close>

definition click_lines :: "nat \<Rightarrow> action \<Rightarrow> py_error + string list" where
  "click_lines i action =
     (let selector = py_str (dict_get action ''selector'' (PStr []));
          element_type = dict_get action ''element_type'' (PStr ''element'')
      in case is_image_type element_type of
           Inl e \<Rightarrow> Inl e
         | Inr True \<Rightarrow>
             Inr ((step_prefix i @ ''Click '' @ py_str element_type) # image_click_lines)
         | Inr False \<Rightarrow>
             Inr [step_prefix i @ ''Click '' @ py_str element_type,
                  selector_wait_line selector,
                  indent @ ''await element.click()'',
                  indent @ ''await asyncio.sleep(1)'',
                  []])"

definition fill_lines :: "nat \<Rightarrow> action \<Rightarrow> string list" where
  \<open>fill_lines i action =
     (let selector = py_str (dict_get action ''selector'' (PStr []));
          text = py_str (dict_get action ''text'' (PStr []))
      in [step_prefix i @ ''Fill input field'',
          indent @ ''input = await page.wait_for_selector("'' @ selector
            @ ''", timeout=5000, state="visible")'',
          indent @ ''await input.click()'',
          indent @ ''await input.fill("")'',
          indent @ ''await input.fill("'' @ text @ ''")'',
          indent @ ''await asyncio.sleep(0.5)'',
          []])\<close>

definition press_lines :: "nat \<Rightarrow> action \<Rightarrow> string list" where
  \<open>press_lines i action =
     (let selector = py_str (dict_get action ''selector'' (PStr []));
          key = py_str (dict_get action ''key'' (PStr ''Enter''))
      in [step_prefix i @ ''Press key '' @ [CHR 0x27] @ key @ [CHR 0x27],
          selector_wait_line selector,
          indent @ ''await element.press("'' @ key @ ''")'',
          indent @ ''await asyncio.sleep(1)'',
          []])\<close>

definition wait_lines :: "nat \<Rightarrow> action \<Rightarrow> string list" where
  \<open>wait_lines i action =
     (let wait_type = dict_get action ''wait_type'' (PStr ''load'');
          timeout = py_str (dict_get action ''timeout'' (PInt 10000));
          selector = dict_get action ''selector'' PNone
      in (if wait_type = PStr ''load'' then
            [step_prefix i @ ''Wait for page load'',
             indent @ ''await page.wait_for_load_state("networkidle", timeout='' @ timeout @ '')'']
          else if wait_type = PStr ''selector'' \<and> py_truthy selector then
            [step_prefix i @ ''Wait for selector'',
             indent @ ''await page.wait_for_selector("'' @ py_str selector
               @ ''", timeout='' @ timeout @ '')'']
          else [])
         @ [[]])\<close>

definition sleep_lines :: "nat \<Rightarrow> action \<Rightarrow> string list" where
  "sleep_lines i action =
     (let seconds = py_str (dict_get action ''seconds'' (PInt 1))
      in [step_prefix i @ ''Wait '' @ seconds @ '' seconds'',
          indent @ ''await asyncio.sleep('' @ seconds @ '')'',
          []])"

text \<open>
  The body of the loop over \<open>enumerate(self.actions)\<close>: the lines appended for the
  action at index \<open>i\<close>. An action of any other type appends nothing.
\<close>

definition action_lines :: "nat \<Rightarrow> action \<Rightarrow> py_error + string list" where
  "action_lines i action =
     (let action_type = dict_get action ''type'' PNone
      in if action_type = PStr ''navigate'' then Inr (navigate_lines i action)
         else if action_type = PStr ''click'' then click_lines i action
         else if action_type = PStr ''fill'' then Inr (fill_lines i action)
         else if action_type = PStr ''press'' then Inr (press_lines i action)
         else if action_type = PStr ''wait'' then Inr (wait_lines i action)
         else if action_type = PStr ''sleep'' then Inr (sleep_lines i action)
         else Inr [])"

text \<open>The loop itself, from index \<open>i\<close> on; an exception leaves the loop.\<close>

fun actions_lines :: "nat \<Rightarrow> action list \<Rightarrow> py_error + string list" where
  "actions_lines i [] = Inr []"
| "actions_lines i (a # rest) =
     (case action_lines i a of
        Inl e \<Rightarrow> Inl e
      | Inr ls \<Rightarrow>
          (case actions_lines (Suc i) rest of
             Inl e \<Rightarrow> Inl e
           | Inr later \<Rightarrow> Inr (ls @ later)))"

subsection \<open>Header, footer and \<open>generate\<close>\<close>

text \<open>
  \<open>now\<close> is the text of \<open>datetime.now().strftime('%Y-%m-%d %H:%M:%S')\<close> at the time
  of the call.
\<close>

definition timestamp_line :: "string \<Rightarrow> string" where
  "timestamp_line now = ''Generated from execution on: '' @ now"

definition header_lines :: "string \<Rightarrow> string \<Rightarrow> string list" where
  \<open>header_lines now query =
     [''"""'',
      ''Auto-generated Playwright test script'',
      timestamp_line now]
     @ (if query \<noteq> [] then [''Original query: '' @ query] else [])
     @ [''"""'',
        ''import asyncio'',
        ''from playwright.async_api import async_playwright'',
        [],
        [],
        ''async def test_auto_generated():'',
        ''    """Auto-generated test based on actual execution."""'',
        ''    browser = await async_playwright().start()'',
        ''    chromium = await browser.chromium.launch(headless=False, slow_mo=500)'',
        ''    page = await chromium.new_page()'',
        [],
        ''    try:'']\<close>

definition footer_lines :: "string list" where
  \<open>footer_lines =
     [indent @ ''print('' @ [CHR 0x27] @ ''Test completed successfully'' @ [CHR 0x27] @ '')'',
      indent @ ''print(f"Final URL: {page.url}")'',
      indent @ ''print(f"Final title: {await page.title()}")'',
      indent @ ''await asyncio.sleep(5)'',
      [],
      ''    except Exception as e:'',
      ''        print(f"Test failed: {str(e)}")'',
      ''        import traceback'',
      ''        traceback.print_exc()'',
      [],
      ''    finally:'',
      ''        await chromium.close()'',
      ''        await browser.stop()'',
      [],
      [],
      ''if __name__ == "__main__":'',
      ''    asyncio.run(test_auto_generated())'']\<close>

text \<open>The list \<open>lines\<close> at the end of \<open>generate\<close>, and the text it returns.\<close>

definition generate_lines :: "string \<Rightarrow> action list \<Rightarrow> string \<Rightarrow> py_error + string list" where
  "generate_lines now acts query =
     (case actions_lines 0 acts of
        Inl e \<Rightarrow> Inl e
      | Inr body \<Rightarrow> Inr (header_lines now query @ body @ footer_lines))"

definition generate :: "string \<Rightarrow> action list \<Rightarrow> string \<Rightarrow> py_error + string" where
  "generate now acts query =
     (case generate_lines now acts query of
        Inl e \<Rightarrow> Inl e
      | Inr ls \<Rightarrow> Inr (join_lines ls))"

subsection \<open>Notions used to state the properties of the generator\<close>

text \<open>
  A step annotation is an emitted line that starts with the indentation and \<open># Step\<close>.
\<close>

definition is_step_line :: "string \<Rightarrow> bool" where
  "is_step_line l = starts_with ''        # Step '' l"

definition step_annotations :: "string list \<Rightarrow> string list" where
  "step_annotations ls = filter is_step_line ls"

text \<open>
  The records for which the loop body appends a step annotation: the six known types,
  where a click has a string as its element type (any other value makes the \<open>in\<close>
  test raise) and a wait is of one of the two kinds that the wait branch handles.
  \<open>step_block i b\<close>: the block \<open>b\<close> opens with the annotation of step \<open>i + 1\<close>
  and holds no other annotation.
\<close>

fun is_str :: "pyval \<Rightarrow> bool" where
  "is_str (PStr s) = True"
| "is_str v = False"

definition emits_step :: "action \<Rightarrow> bool" where
  "emits_step a =
     (let t = dict_get a ''type'' PNone;
          wait_type = dict_get a ''wait_type'' (PStr ''load'')
      in t = PStr ''navigate'' \<or> t = PStr ''fill'' \<or> t = PStr ''press'' \<or> t = PStr ''sleep''
         \<or> (t = PStr ''click'' \<and> is_str (dict_get a ''element_type'' (PStr ''element'')))
         \<or> (t = PStr ''wait'' \<and>
             (wait_type = PStr ''load''
              \<or> (wait_type = PStr ''selector'' \<and> py_truthy (dict_get a ''selector'' PNone)))))"

definition step_block :: "nat \<Rightarrow> string list \<Rightarrow> bool" where
  "step_block i b = (b \<noteq> [] \<and> starts_with (step_prefix i) (hd b) \<and> step_annotations b = [hd b])"

text \<open>
  The log of the end-to-end scenario (navigate, click the search icon, fill, press Enter,
  wait), a wait record as \<open>add_wait("selector")\<close> stores it, and the selector that
  the search agent records for the search icon of apple.com.
\<close>

definition end_to_end_log :: "action list" where
  "end_to_end_log = map record_of
     [(''t0'', AddNavigation ''https://x.test''),
      (''t1'', AddClick ''#search-icon'' ''search_icon''),
      (''t2'', AddFill ''#q'' ''widget''),
      (''t3'', AddPress ''#q'' ''Enter''),
      (''t4'', AddWait ''load'' (PInt 10000) PNone)]"

definition bare_selector_wait :: action where
  "bare_selector_wait = record_of (''t0'', AddWait ''selector'' PNone PNone)"

text \<open>Python's rule for the body of a short string literal delimited by double quotes.\<close>

fun dq_literal_body :: "string \<Rightarrow> bool" where
  "dq_literal_body [] = True"
| "dq_literal_body [c] = (c \<noteq> CHR 0x22 \<and> c \<noteq> CHR 0x5C \<and> c \<noteq> CHR 0x0A)"
| "dq_literal_body (c # d # cs) =
     (if c = CHR 0x5C then dq_literal_body cs
      else c \<noteq> CHR 0x22 \<and> c \<noteq> CHR 0x0A \<and> dq_literal_body (d # cs))"

definition apple_search_selector :: string where
  \<open>apple_search_selector = ''a[aria-label*="Search" i]''\<close>

text \<open>
  The lines of a script, as Python reads them: the text is cut at every line feed and at
  every carriage return. A string with neither is a single line.
\<close>

definition is_break :: "char \<Rightarrow> bool" where
  "is_break c = (c = CHR 0x0A \<or> c = CHR 0x0D)"

fun script_lines :: "string \<Rightarrow> string list" where
  "script_lines [] = [[]]"
| "script_lines (c # cs) =
     (if is_break c then [] # script_lines cs
      else (case script_lines cs of
              [] \<Rightarrow> [[c]]
            | l # ls \<Rightarrow> (c # l) # ls))"

definition no_break :: "string \<Rightarrow> bool" where
  "no_break s = list_all (\<lambda>c. c \<noteq> CHR 0x0A \<and> c \<noteq> CHR 0x0D) s"

text \<open>
  The values of a record that its template prints, each as printed, and the records
  none of whose printed values holds a line break.
\<close>

definition embedded_values :: "action \<Rightarrow> string list" where
  "embedded_values a =
     (let t = dict_get a ''type'' PNone;
          element_type = dict_get a ''element_type'' (PStr ''element'');
          wait_type = dict_get a ''wait_type'' (PStr ''load'');
          selector = py_str (dict_get a ''selector'' (PStr []));
          timeout = py_str (dict_get a ''timeout'' (PInt 10000))
      in if t = PStr ''navigate'' then [py_str (dict_get a ''url'' (PStr []))]
         else if t = PStr ''click'' then
           (case is_image_type element_type of
              Inr False \<Rightarrow> [py_str element_type, selector]
            | other \<Rightarrow> [py_str element_type])
         else if t = PStr ''fill'' then [selector, py_str (dict_get a ''text'' (PStr []))]
         else if t = PStr ''press'' then [py_str (dict_get a ''key'' (PStr ''Enter'')), selector]
         else if t = PStr ''wait'' then
           (if wait_type = PStr ''load'' then [timeout]
            else if wait_type = PStr ''selector'' \<and> py_truthy (dict_get a ''selector'' PNone)
            then [py_str (dict_get a ''selector'' PNone), timeout]
            else [])
         else if t = PStr ''sleep'' then [py_str (dict_get a ''seconds'' (PInt 1))]
         else [])"

definition single_line :: "action \<Rightarrow> bool" where
  "single_line a = list_all no_break (embedded_values a)"



definition plain_text :: "string \<Rightarrow> bool" where
  "plain_text s = list_all (\<lambda>c. c \<noteq> CHR 0x22 \<and> c \<noteq> CHR 0x5C) s"



definition apple_input_selector :: string where
  \<open>apple_input_selector = ''input[aria-label*="Search" i]''\<close>

definition apple_session_log :: "action list" where
  "apple_session_log = map record_of
     [(''t0'', AddNavigation ''https://www.apple.com''),
      (''t1'', AddClick apple_search_selector ''search_icon''),
      (''t2'', AddFill apple_input_selector ''iPhone 17''),
      (''t3'', AddPress apple_input_selector ''Enter'')]"

definition product_image_click :: action where
  "product_image_click = record_of (''t0'', AddClick ''img (product image)'' ''product_image'')"

definition injected_fill :: action where
  "injected_fill =
     record_of (''t0'', AddFill ''#q'' (''x'' @ [CHR 0x0A] @ ''        # Step 1: injected''))"

section \<open>agents/product\_search\_agent.py\<close>

subsection \<open>The browser, the inference service and the parsers\<close>

text \<open>
  The agent talks to a Playwright page, to the OpenAI client, to \<open>json\<close> and to
  BeautifulSoup. They are taken as parameters: a record of functions over an abstract
  world \<open>'w\<close>, which a call may change. A call that raises has the outcome \<open>Raises\<close>.
  An element handle is a number; a query that finds nothing returns \<open>None\<close>.
\<close>

type_synonym handle = nat

datatype 'a outcome = Raises | Returns 'a

datatype json_value = JsonObject action | JsonOther

record 'w browser =
  page_url :: "'w \<Rightarrow> string"
  page_query_selector :: "string \<Rightarrow> 'w \<Rightarrow> handle option outcome \<times> 'w"
  page_wait_for_selector :: "string \<Rightarrow> nat \<Rightarrow> 'w \<Rightarrow> handle option outcome \<times> 'w"
  page_content :: "'w \<Rightarrow> string outcome \<times> 'w"
  handle_is_visible :: "handle \<Rightarrow> 'w \<Rightarrow> bool outcome \<times> 'w"
  handle_click :: "handle \<Rightarrow> 'w \<Rightarrow> unit outcome \<times> 'w"
  handle_evaluate :: "handle \<Rightarrow> string \<Rightarrow> 'w \<Rightarrow> pyval outcome \<times> 'w"
  handle_evaluate_handle :: "handle \<Rightarrow> string \<Rightarrow> 'w \<Rightarrow> handle option outcome \<times> 'w"
  handle_query_selector :: "handle \<Rightarrow> string \<Rightarrow> 'w \<Rightarrow> handle option outcome \<times> 'w"
  asyncio_sleep :: "nat \<Rightarrow> 'w \<Rightarrow> 'w"
  chat_completions_create :: "string \<Rightarrow> 'w \<Rightarrow> string outcome \<times> 'w"
  json_loads :: "string \<Rightarrow> json_value outcome"
  soup_find_inputs :: "string \<Rightarrow> (string \<rightharpoonup> string) list outcome"

text \<open>
  \<open>page_wait_for_selector sel ms\<close> is \<open>page.wait_for_selector(sel, timeout=ms,
  state="visible")\<close>; \<open>asyncio_sleep ms\<close> sleeps for \<open>ms\<close> milliseconds;
  \<open>chat_completions_create\<close> takes the page excerpt that the prompt embeds (the rest
  of the request is constant) and gives \<open>response.choices[0].message.content\<close>;
  \<open>json_loads\<close> gives an object of scalar members or some other JSON value;
  \<open>soup_find_inputs html\<close> is \<open>BeautifulSoup(html, 'html.parser').find_all('input',
  type=['text', 'search'])\<close>, each tag as its attributes.

  Besides the world, a session keeps the list of the calls made so far, in order: it is
  what a spy on the collaborators would see.
\<close>

datatype call =
    QuerySelector string
  | WaitForSelector string nat
  | PageContent
  | IsVisible handle
  | Click handle
  | Evaluate handle string
  | EvaluateHandle handle string
  | HandleQuerySelector handle string
  | Sleep nat
  | ChatCompletion string

record 'w session =
  world :: 'w
  calls :: "call list"

definition perform :: "call \<Rightarrow> ('w \<Rightarrow> 'a \<times> 'w) \<Rightarrow> 'w session \<Rightarrow> 'a \<times> 'w session" where
  "perform c f s = (case f (world s) of (r, w) \<Rightarrow> (r, \<lparr>world = w, calls = calls s @ [c]\<rparr>))"

definition query_selector ::
    "'w browser \<Rightarrow> string \<Rightarrow> 'w session \<Rightarrow> handle option outcome \<times> 'w session" where
  "query_selector b sel = perform (QuerySelector sel) (page_query_selector b sel)"

definition wait_for_selector ::
    "'w browser \<Rightarrow> string \<Rightarrow> nat \<Rightarrow> 'w session \<Rightarrow> handle option outcome \<times> 'w session" where
  "wait_for_selector b sel ms = perform (WaitForSelector sel ms) (page_wait_for_selector b sel ms)"

definition is_visible :: "'w browser \<Rightarrow> handle \<Rightarrow> 'w session \<Rightarrow> bool outcome \<times> 'w session" where
  "is_visible b h = perform (IsVisible h) (handle_is_visible b h)"

definition click :: "'w browser \<Rightarrow> handle \<Rightarrow> 'w session \<Rightarrow> unit outcome \<times> 'w session" where
  "click b h = perform (Click h) (handle_click b h)"

definition evaluate ::
    "'w browser \<Rightarrow> handle \<Rightarrow> string \<Rightarrow> 'w session \<Rightarrow> pyval outcome \<times> 'w session" where
  "evaluate b h js = perform (Evaluate h js) (handle_evaluate b h js)"



definition sleep :: "'w browser \<Rightarrow> nat \<Rightarrow> 'w session \<Rightarrow> 'w session" where
  "sleep b ms s = snd (perform (Sleep ms) (\<lambda>w. ((), asyncio_sleep b ms w)) s)"

definition chat_completion ::
    "'w browser \<Rightarrow> string \<Rightarrow> 'w session \<Rightarrow> string outcome \<times> 'w session" where
  "chat_completion b excerpt = perform (ChatCompletion excerpt) (chat_completions_create b excerpt)"

text \<open>
  \<open>WebNavigatorAgent.get_page_content\<close> (agents/web\_navigator.py): the content of
  the page, or the empty string when reading it raises.
\<close>

definition get_page_content :: "'w browser \<Rightarrow> 'w session \<Rightarrow> string \<times> 'w session" where
  "get_page_content b s =
     (case perform PageContent (page_content b) s of
        (Raises, s1) \<Rightarrow> ([], s1)
      | (Returns content, s1) \<Rightarrow> (content, s1))"

subsection \<open>\<open>find_search_box_universal\<close>\<close>

definition apple_search_icons :: "string list" where
  \<open>apple_search_icons =
     [''#ac-gn-searchform'',
      ''button.ac-gn-searchform-submit'',
      ''a[aria-label*='Search' i]'',
      ''button[aria-label*='Search' i]'',
      ''.ac-gn-searchform'',
      ''#globalnav-menustate-search'']\<close>

definition apple_input_selectors :: "string list" where
  \<open>apple_input_selectors =
     [''#ac-gn-searchform-input'',
      ''input.ac-gn-searchform-input'',
      ''input[type='search']'',
      ''input[name='q']'',
      ''input[aria-label*='Search' i]'']\<close>

definition common_selectors :: "string list" where
  \<open>common_selectors =
     [''input[type='search']'',
      ''input[type='text'][name*='search' i]'',
      ''input[type='text'][id*='search' i]'',
      ''input[type='text'][placeholder*='Search' i]'',
      ''input[type='text'][placeholder*='search' i]'',
      ''input[name='q']'',
      ''input[name='search']'',
      ''input[id='search']'',
      ''input[id='searchbox']'',
      ''#search'',
      ''#searchbox'',
      ''.search input'',
      ''.searchbox input'',
      ''input[aria-label*='Search' i]'',
      ''input[aria-label*='search' i]'',
      ''form[action*='search' i] input'',
      ''form[method='get'] input[type='text']'']\<close>

definition button_selectors :: "string \<Rightarrow> string list" where
  \<open>button_selectors selector =
     [''button[type='submit']'',
      ''input[type='submit']'',
      ''button.search'',
      ''button[aria-label*='Search' i]'',
      ''form button'',
      ''form:has('' @ selector @ '') button'']\<close>

text \<open>
  The first loop of the apple.com branch: click the first search icon that exists and is
  visible, sleep two seconds and leave the loop. An exception anywhere in the body goes
  on with the next selector.
\<close>

fun click_search_icon :: "'w browser \<Rightarrow> string list \<Rightarrow> 'w session \<Rightarrow> 'w session" where
  "click_search_icon b [] s = s"
| "click_search_icon b (icon_selector # rest) s =
     (case query_selector b icon_selector s of
        (Raises, s1) \<Rightarrow> click_search_icon b rest s1
      | (Returns None, s1) \<Rightarrow> click_search_icon b rest s1
      | (Returns (Some icon), s1) \<Rightarrow>
          (case is_visible b icon s1 of
             (Raises, s2) \<Rightarrow> click_search_icon b rest s2
           | (Returns False, s2) \<Rightarrow> click_search_icon b rest s2
           | (Returns True, s2) \<Rightarrow>
               (case click b icon s2 of
                  (Raises, s3) \<Rightarrow> click_search_icon b rest s3
                | (Returns u, s3) \<Rightarrow> sleep b 2000 s3)))"

text \<open>The second loop: the first input selector that becomes visible within 3 seconds.\<close>

fun find_apple_input ::
    "'w browser \<Rightarrow> string list \<Rightarrow> 'w session \<Rightarrow> action option \<times> 'w session" where
  "find_apple_input b [] s = (None, s)"
| "find_apple_input b (selector # rest) s =
     (case wait_for_selector b selector 3000 s of
        (Returns (Some element), s1) \<Rightarrow>
          (Some [''found'' \<mapsto> PBool True,
                 ''input_selector'' \<mapsto> PStr selector,
                 ''button_selector'' \<mapsto>
                    PStr ''button.ac-gn-searchform-submit, button[type='submit']'',
                 ''method'' \<mapsto> PStr ''apple_specific''], s1)
      | (other, s1) \<Rightarrow> find_apple_input b rest s1)"

definition apple_specific_search ::
    "'w browser \<Rightarrow> 'w session \<Rightarrow> action option \<times> 'w session" where
  "apple_specific_search b s =
     (let current_url = page_url b (world s)
      in if str_contains ''apple.com'' (lower current_url)
         then find_apple_input b apple_input_selectors (click_search_icon b apple_search_icons s)
         else (None, s))"

text \<open>
  Strategy 1. The four \<open>evaluate\<close> calls read the tag, type, name and id of the element
  for the log message; the first that raises ends the attempt on this selector.
\<close>

definition element_info_scripts :: "string list" where
  "element_info_scripts =
     [''el => el.tagName'',
      ''el => el.type || '' @ [CHR 0x27, CHR 0x27],
      ''el => el.name || '' @ [CHR 0x27, CHR 0x27],
      ''el => el.id || '' @ [CHR 0x27, CHR 0x27]]"

fun evaluate_all ::
    "'w browser \<Rightarrow> handle \<Rightarrow> string list \<Rightarrow> 'w session \<Rightarrow> unit outcome \<times> 'w session" where
  "evaluate_all b element [] s = (Returns (), s)"
| "evaluate_all b element (js # rest) s =
     (case evaluate b element js s of
        (Raises, s1) \<Rightarrow> (Raises, s1)
      | (Returns v, s1) \<Rightarrow> evaluate_all b element rest s1)"

fun find_button :: "'w browser \<Rightarrow> string list \<Rightarrow> 'w session \<Rightarrow> pyval \<times> 'w session" where
  "find_button b [] s = (PNone, s)"
| "find_button b (btn_sel # rest) s =
     (case query_selector b btn_sel s of
        (Returns (Some btn), s1) \<Rightarrow> (PStr btn_sel, s1)
      | (other, s1) \<Rightarrow> find_button b rest s1)"

fun try_common_selectors ::
    "'w browser \<Rightarrow> string list \<Rightarrow> 'w session \<Rightarrow> action option \<times> 'w session" where
  "try_common_selectors b [] s = (None, s)"
| "try_common_selectors b (selector # rest) s =
     (case wait_for_selector b selector 2000 s of
        (Returns (Some element), s1) \<Rightarrow>
          (case evaluate_all b element element_info_scripts s1 of
             (Raises, s2) \<Rightarrow> try_common_selectors b rest s2
           | (Returns u, s2) \<Rightarrow>
               (case find_button b (button_selectors selector) s2 of
                  (button_selector, s3) \<Rightarrow>
                    (Some [''found'' \<mapsto> PBool True,
                           ''input_selector'' \<mapsto> PStr selector,
                           ''button_selector'' \<mapsto> button_selector,
                           ''method'' \<mapsto> PStr ''direct_selector''], s3)))
      | (other, s1) \<Rightarrow> try_common_selectors b rest s1)"

text \<open>
  Strategy 2. \<open>str.strip\<close> and \<open>str.split\<close> on the three backquotes of a code fence,
  then the answer of the model, stripped of its fence, goes to \<open>json.loads\<close>. The
  element at index 1 of the split exists, since the text starts with the fence. A value
  that is not an object has no \<open>get\<close>: the call raises, as every failure in this
  strategy does, into the handler that only logs.
\<close>

definition is_space :: "char \<Rightarrow> bool" where
  "is_space c = ((of_char c :: nat) \<in> {9, 10, 11, 12, 13, 28, 29, 30, 31, 32, 133, 160})"

definition strip :: "string \<Rightarrow> string" where
  "strip s = rev (dropWhile is_space (rev (dropWhile is_space s)))"

definition fence :: string where
  "fence = [CHR 0x60, CHR 0x60, CHR 0x60]"

function split_fence :: "string \<Rightarrow> string \<Rightarrow> string list" where
  "split_fence acc [] = [acc]"
| "split_fence acc (c # cs) =
     (if starts_with fence (c # cs) then acc # split_fence [] (drop 2 cs)
      else split_fence (acc @ [c]) cs)"
  by pat_completeness auto
termination
  by (relation "measure (\<lambda>(acc, s). length s)") auto

definition unfence :: "string \<Rightarrow> string outcome" where
  "unfence content =
     (let result_text = strip content
      in if starts_with fence result_text
         then (case split_fence [] result_text of
                 first # second # others \<Rightarrow>
                   Returns (strip (if starts_with ''json'' second then drop 4 second else second))
               | short \<Rightarrow> Raises)
         else Returns (strip result_text))"

definition ai_detect :: "'w browser \<Rightarrow> 'w session \<Rightarrow> action option \<times> 'w session" where
  "ai_detect b s =
     (case get_page_content b s of
        (content, s1) \<Rightarrow>
          (case chat_completion b (take 8000 content) s1 of
             (Raises, s2) \<Rightarrow> (None, s2)
           | (Returns answer, s2) \<Rightarrow>
               (case unfence answer of
                  Raises \<Rightarrow> (None, s2)
                | Returns result_text \<Rightarrow>
                    (case json_loads b result_text of
                       Raises \<Rightarrow> (None, s2)
                     | Returns JsonOther \<Rightarrow> (None, s2)
                     | Returns (JsonObject ai_result) \<Rightarrow>
                         if py_truthy (dict_get ai_result ''input_selector'' PNone)
                         then (Some [''found'' \<mapsto> PBool True,
                                     ''input_selector'' \<mapsto>
                                        dict_get ai_result ''input_selector'' PNone,
                                     ''button_selector'' \<mapsto>
                                        dict_get ai_result ''button_selector'' PNone,
                                     ''method'' \<mapsto> PStr ''ai_detected''], s2)
                         else (None, s2)))))"

text \<open>
  Strategy 3. The first input whose name, id, placeholder or aria-label contains one of
  the keywords, in lower case; its selector is made from its id, else from its name, else
  it is \<open>input\<close>.
\<close>

definition attribute_or_empty :: "(string \<rightharpoonup> string) \<Rightarrow> string \<Rightarrow> string" where
  "attribute_or_empty inp key = (case inp key of None \<Rightarrow> [] | Some v \<Rightarrow> v)"

definition is_search_input :: "(string \<rightharpoonup> string) \<Rightarrow> bool" where
  "is_search_input inp =
     list_ex (\<lambda>keyword.
        list_ex (\<lambda>text. str_contains keyword text)
          [lower (attribute_or_empty inp ''name''),
           lower (attribute_or_empty inp ''id''),
           lower (attribute_or_empty inp ''placeholder''),
           lower (attribute_or_empty inp ''aria-label'')])
       [''search'', ''q'', ''query'']"

definition input_selector_of :: "(string \<rightharpoonup> string) \<Rightarrow> string" where
  "input_selector_of inp =
     (if attribute_or_empty inp ''id'' \<noteq> [] then ''#'' @ attribute_or_empty inp ''id''
      else if attribute_or_empty inp ''name'' \<noteq> []
      then ''input[name='' @ [CHR 0x27] @ attribute_or_empty inp ''name'' @ [CHR 0x27] @ '']''
      else ''input'')"

fun first_search_input :: "(string \<rightharpoonup> string) list \<Rightarrow> action option" where
  "first_search_input [] = None"
| "first_search_input (inp # rest) =
     (if is_search_input inp
      then Some [''found'' \<mapsto> PBool True,
                 ''input_selector'' \<mapsto> PStr (input_selector_of inp),
                 ''button_selector'' \<mapsto> PStr ''button[type='submit'], input[type='submit']'',
                 ''method'' \<mapsto> PStr ''html_parsing'']
      else first_search_input rest)"

definition html_parsing :: "'w browser \<Rightarrow> 'w session \<Rightarrow> action option \<times> 'w session" where
  "html_parsing b s =
     (case get_page_content b s of
        (content, s1) \<Rightarrow>
          (case soup_find_inputs b content of
             Raises \<Rightarrow> (None, s1)
           | Returns inputs \<Rightarrow> (first_search_input inputs, s1)))"

text \<open>
  The function itself. Every call that can raise stands inside one of the inner
  \<open>try\<close> blocks, so the handler of the outer one, which also returns
  \<open>{"found": False}\<close>, is not reached.
\<close>

definition not_found :: action where
  "not_found = [''found'' \<mapsto> PBool False]"

definition find_search_box_universal :: "'w browser \<Rightarrow> 'w session \<Rightarrow> action \<times> 'w session" where
  "find_search_box_universal b s =
     (case apple_specific_search b s of
        (Some result, s1) \<Rightarrow> (result, s1)
      | (None, s1) \<Rightarrow>
          (case try_common_selectors b common_selectors s1 of
             (Some result, s2) \<Rightarrow> (result, s2)
           | (None, s2) \<Rightarrow>
               (case ai_detect b s2 of
                  (Some result, s3) \<Rightarrow> (result, s3)
                | (None, s3) \<Rightarrow>
                    (case html_parsing b s3 of
                       (Some result, s4) \<Rightarrow> (result, s4)
                     | (None, s4) \<Rightarrow> (not_found, s4)))))"

subsection \<open>The adjacency search of \<open>click_product_image\<close>\<close>

text \<open>
  For an element whose text holds every keyword of the product name,
  \<open>click_product_image\<close> looks for an image to click. This is the block that computes
  the variable \<open>image\<close> from the element and its tag name: (1) the element itself when
  it is an image, (2) an image inside the element, (3) inside its parent, (4) inside its
  grandparent, (5) inside its previous, then its next sibling, (6) inside the first of
  up to five ancestors that holds one. Steps 3 to 6 each stand in a \<open>try\<close> of their own
  whose handler does nothing; step 2 does not, so an exception there leaves the block.
\<close>

definition parent_script :: string where
  "parent_script = ''el => el.parentElement''"

definition grandparent_script :: string where
  "grandparent_script = ''el => el.parentElement?.parentElement''"

definition previous_sibling_script :: string where
  "previous_sibling_script = ''el => el.previousElementSibling''"

definition next_sibling_script :: string where
  "next_sibling_script = ''el => el.nextElementSibling''"





subsection \<open>Notions used to state the properties of the search agent\<close>

text \<open>
  The calls to the inference service among the calls of a session, and the results of
  \<open>find_search_box_universal\<close> that report a search box found by a given method.
\<close>

fun is_chat :: "call \<Rightarrow> bool" where
  "is_chat (ChatCompletion excerpt) = True"
| "is_chat c = False"

definition inference_calls :: "'w session \<Rightarrow> call list" where
  "inference_calls s = filter is_chat (calls s)"

definition tagged :: "string \<Rightarrow> action \<Rightarrow> bool" where
  "tagged method result =
     (result ''found'' = Some (PBool True) \<and> result ''method'' = Some (PStr method))"

text \<open>
  What a page answers whenever it is asked. \<open>visible_match\<close>: waiting for the selector
  gives an element, and reading the properties of that element does not fail.
  \<open>no_image_within\<close> and \<open>image_within\<close>: the query for an image inside an element
  finds nothing, or finds the given image. \<open>no_image_via\<close>: the relative of the element
  that the script denotes is missing, or cannot be obtained, or the query for an image
  inside it fails or finds nothing. \<open>sibling_with_image\<close>: the previous sibling holds
  the image, or there is no previous sibling or none with an image inside and the next
  sibling holds the image.
\<close>

definition visible_match :: "'w browser \<Rightarrow> string \<Rightarrow> bool" where
  "visible_match b selector =
     (\<forall>w. \<exists>element. fst (page_wait_for_selector b selector 2000 w) = Returns (Some element)
            \<and> (\<forall>js w'. fst (handle_evaluate b element js w') \<noteq> Raises))"















text \<open>
  Pages for the examples, over a world that never changes. \<open>blank_page\<close> has no
  search box at all, and the model answers with an empty JSON object. \<open>shop_page\<close> shows
  an input under \<open>#search\<close>. \<open>apple_page\<close> is a page of apple.com whose input under
  \<open>input[name='q']\<close> is visible. On \<open>failing_page\<close>, a page of apple.com, every
  call to the browser, to the model and to the parsers raises.

  \<open>catalog_page\<close> holds seven elements with a product name, none of them an image.
  Element 1: the query inside its parent 2 fails, its grandparent cannot be obtained, its
  previous sibling 4 holds no image and its next sibling 5 holds the image 6. Element 10
  holds the image 11. Element 20 has no previous sibling; its next sibling 24 holds the
  image 25, which is also the first image inside its parent 21. Element 60 has no previous
  sibling; its next sibling 64 holds the image 65, and the first image inside its parent
  61 is another one, 62. Element 30: its parent 31 holds no image and its grandparent 32
  holds the image 33. Element 40 has no siblings; its parent 41 and the parent 42 of that
  one hold no image, and the parent 43 of 42 holds the image 44. Element 50: the query
  inside its parent 51 fails, its grandparent and its previous sibling cannot be obtained,
  and its next sibling 55 holds the image 56.
\<close>

definition start_session :: "unit session" where
  "start_session = \<lparr>world = (), calls = []\<rparr>"

definition blank_page :: "unit browser" where
  "blank_page =
     \<lparr>page_url = (\<lambda>w. ''https://shop.test/''),
      page_query_selector = (\<lambda>sel w. (Returns None, w)),
      page_wait_for_selector = (\<lambda>sel ms w. (Raises, w)),
      page_content = (\<lambda>w. (Returns ''<html><body><p>Welcome</p></body></html>'', w)),
      handle_is_visible = (\<lambda>h w. (Returns False, w)),
      handle_click = (\<lambda>h w. (Raises, w)),
      handle_evaluate = (\<lambda>h js w. (Returns (PStr ''INPUT''), w)),
      handle_evaluate_handle = (\<lambda>h js w. (Returns None, w)),
      handle_query_selector = (\<lambda>h sel w. (Returns None, w)),
      asyncio_sleep = (\<lambda>ms w. w),
      chat_completions_create = (\<lambda>excerpt w. (Returns ''{}'', w)),
      json_loads = (\<lambda>text. Returns (JsonObject Map.empty)),
      soup_find_inputs = (\<lambda>html. Returns [])\<rparr>"

definition shop_page :: "unit browser" where
  "shop_page =
     blank_page
       \<lparr>page_wait_for_selector :=
          (\<lambda>sel ms w. if sel = ''#search'' then (Returns (Some 3), w) else (Raises, w)),
        page_query_selector :=
          (\<lambda>sel w. if sel = ''form button'' then (Returns (Some 4), w) else (Returns None, w))\<rparr>"

definition apple_page :: "unit browser" where
  \<open>apple_page =
     blank_page
       \<lparr>page_url := (\<lambda>w. ''https://www.apple.com/''),
        page_wait_for_selector :=
          (\<lambda>sel ms w. if sel = ''input[name='q']'' then (Returns (Some 7), w) else (Raises, w))\<rparr>\<close>



section \<open>Properties of the action tracker\<close>








text \<open>
  C2. \<open>stop\<close>, documented as \<open>Stop tracking actions\<close>, only writes \<open>end_time\<close>. A
  navigation recorded after it still lands in the list: the log is one record longer
  than it was at \<open>stop\<close>.
\<close>

theorem stop_does_not_seal:
  "get_actions (snd (add_navigation ''t2'' ''https://x.test''
       (stop ''t1'' (start ''t0'' init_tracker))))
     \<noteq> get_actions (stop ''t1'' (start ''t0'' init_tracker))
   \<and> length (get_actions (stop ''t1'' (start ''t0'' init_tracker))) = 0
   \<and> length (get_actions (snd (add_navigation ''t2'' ''https://x.test''
       (stop ''t1'' (start ''t0'' init_tracker))))) = 1"
  by (simp add: get_actions_def add_navigation_def add_action_def stop_def start_def
      init_tracker_def)

section \<open>Properties of the script generator\<close>

subsection \<open>Strings, records and annotations\<close>

lemma starts_with_append [simp]: "starts_with p (p @ s)"
  by (induction p) simp_all

lemma starts_with_iff: "starts_with p s \<longleftrightarrow> (\<exists>r. s = p @ r)"
  by (induction p s rule: starts_with.induct) auto

lemma str_contains_iff: "str_contains n h \<longleftrightarrow> (\<exists>p s. h = p @ n @ s)"
proof (induction h)
  case Nil
  then show ?case by auto
next
  case (Cons c h)
  show ?case
  proof
    assume "str_contains n (c # h)"
    then consider "starts_with n (c # h)" | "str_contains n h" by auto
    then show "\<exists>p s. c # h = p @ n @ s"
    proof cases
      case 1
      then obtain r where "c # h = n @ r" by (auto simp: starts_with_iff)
      then have "c # h = [] @ n @ r" by simp
      then show ?thesis by blast
    next
      case 2
      then obtain p s where "h = p @ n @ s" using Cons.IH by blast
      then have "c # h = (c # p) @ n @ s" by simp
      then show ?thesis by blast
    qed
  next
    assume "\<exists>p s. c # h = p @ n @ s"
    then obtain p s where ps: "c # h = p @ n @ s" by blast
    show "str_contains n (c # h)"
    proof (cases p)
      case Nil
      then have "starts_with n (c # h)" using ps by (auto simp: starts_with_iff)
      then show ?thesis by simp
    next
      case (Cons d p')
      then have "h = p' @ n @ s" using ps by simp
      then have "str_contains n h" using Cons.IH by blast
      then show ?thesis by simp
    qed
  qed
qed

lemma generate_lines_timestamp:
  "generate_lines now2 acts query =
     map_sum id (\<lambda>ls. ls[2 := timestamp_line now2]) (generate_lines now1 acts query)"
  by (cases "actions_lines 0 acts")
     (simp_all add: generate_lines_def header_lines_def numeral_2_eq_2)

lemma dict_get_record_of_type [simp]:
  "dict_get (record_of (now, AddNavigation u)) ''type'' d = PStr ''navigate''"
  "dict_get (record_of (now, AddClick s e)) ''type'' d = PStr ''click''"
  "dict_get (record_of (now, AddFill s x)) ''type'' d = PStr ''fill''"
  "dict_get (record_of (now, AddPress s k)) ''type'' d = PStr ''press''"
  "dict_get (record_of (now, AddWait w t v)) ''type'' d = PStr ''wait''"
  "dict_get (record_of (now, AddSleep n)) ''type'' d = PStr ''sleep''"
  by (simp_all add: dict_get_def record_of_def map_add_def)

lemma dict_get_record_of_click [simp]:
  "dict_get (record_of (now, AddClick s e)) ''selector'' d = PStr s"
  "dict_get (record_of (now, AddClick s e)) ''element_type'' d = PStr e"
  by (simp_all add: dict_get_def record_of_def map_add_def)

lemma dict_get_record_of_wait [simp]:
  "dict_get (record_of (now, AddWait w t v)) ''wait_type'' d = PStr w"
  "dict_get (record_of (now, AddWait w t v)) ''timeout'' d = t"
  "dict_get (record_of (now, AddWait w t v)) ''selector'' d = v"
  by (simp_all add: dict_get_def record_of_def map_add_def)

lemma dict_get_record_of_fields [simp]:
  "dict_get (record_of (now, AddNavigation u)) ''url'' d = PStr u"
  "dict_get (record_of (now, AddFill s x)) ''selector'' d = PStr s"
  "dict_get (record_of (now, AddFill s x)) ''text'' d = PStr x"
  "dict_get (record_of (now, AddPress s k)) ''selector'' d = PStr s"
  "dict_get (record_of (now, AddPress s k)) ''key'' d = PStr k"
  "dict_get (record_of (now, AddSleep n)) ''seconds'' d = n"
  by (simp_all add: dict_get_def record_of_def map_add_def)

lemma is_step_line_step_prefix [simp]: "is_step_line (step_prefix i @ s)"
  by (simp add: is_step_line_def step_prefix_def indent_def)

lemma step_annotations_app: "step_annotations (xs @ ys) = step_annotations xs @ step_annotations ys"
  by (simp add: step_annotations_def)

lemma step_annotations_header: "step_annotations (header_lines now query) = []"
  by (simp add: step_annotations_def header_lines_def is_step_line_def indent_def timestamp_line_def)

lemma step_annotations_footer: "step_annotations footer_lines = []"
  by (simp add: step_annotations_def footer_lines_def is_step_line_def indent_def)

lemma step_annotations_image: "step_annotations image_click_lines = []"
  by (simp add: step_annotations_def image_click_lines_def is_step_line_def indent_def)

lemma not_step_indent_await [simp]: "\<not> is_step_line (indent @ CHR ''a'' # s)"
  by (simp add: is_step_line_def indent_def)

lemma not_step_indent_elem [simp]: "\<not> is_step_line (indent @ CHR ''e'' # s)"
  by (simp add: is_step_line_def indent_def)

lemma not_step_indent_input [simp]: "\<not> is_step_line (indent @ CHR ''i'' # s)"
  by (simp add: is_step_line_def indent_def)

lemma not_step_empty [simp]: "\<not> is_step_line []"
  by (simp add: is_step_line_def indent_def)

lemma step_block_navigate: "step_block i (navigate_lines i a)"
  by (simp add: step_block_def navigate_lines_def step_annotations_def Let_def)

lemma step_block_fill: "step_block i (fill_lines i a)"
  by (simp add: step_block_def fill_lines_def step_annotations_def Let_def)

lemma step_block_press: "step_block i (press_lines i a)"
  by (simp add: step_block_def press_lines_def step_annotations_def Let_def selector_wait_line_def)

lemma step_block_sleep: "step_block i (sleep_lines i a)"
  by (simp add: step_block_def sleep_lines_def step_annotations_def Let_def)

lemma step_block_wait:
  assumes "dict_get a ''wait_type'' (PStr ''load'') = PStr ''load''
    \<or> (dict_get a ''wait_type'' (PStr ''load'') = PStr ''selector''
        \<and> py_truthy (dict_get a ''selector'' PNone))"
  shows "step_block i (wait_lines i a)"
  using assms by (auto simp add: step_block_def wait_lines_def step_annotations_def Let_def)

lemma step_block_click:
  assumes "is_str (dict_get a ''element_type'' (PStr ''element''))"
  shows "\<exists>b. click_lines i a = Inr b \<and> step_block i b"
proof -
  from assms obtain et where et: "dict_get a ''element_type'' (PStr ''element'') = PStr et"
    by (cases "dict_get a ''element_type'' (PStr ''element'')") simp_all
  have img: "filter is_step_line image_click_lines = []"
    using step_annotations_image by (simp add: step_annotations_def)
  show ?thesis
    by (cases "str_contains ''product_image'' et \<or> str_contains ''image'' (lower et)")
       (simp_all add: click_lines_def et Let_def step_block_def step_annotations_def img
          selector_wait_line_def)
qed

lemma emits_step_block:
  assumes "emits_step a"
  shows "\<exists>b. action_lines i a = Inr b \<and> step_block i b"
proof -
  let ?t = "dict_get a ''type'' PNone"
  from assms consider
      "?t = PStr ''navigate''" | "?t = PStr ''fill''" | "?t = PStr ''press''" | "?t = PStr ''sleep''"
    | "?t = PStr ''click''" "is_str (dict_get a ''element_type'' (PStr ''element''))"
    | "?t = PStr ''wait''" "dict_get a ''wait_type'' (PStr ''load'') = PStr ''load''
        \<or> (dict_get a ''wait_type'' (PStr ''load'') = PStr ''selector''
            \<and> py_truthy (dict_get a ''selector'' PNone))"
    unfolding emits_step_def Let_def by blast
  then show ?thesis
  proof cases
    case 1 then show ?thesis by (simp add: action_lines_def step_block_navigate)
  next
    case 2 then show ?thesis by (simp add: action_lines_def step_block_fill)
  next
    case 3 then show ?thesis by (simp add: action_lines_def step_block_press)
  next
    case 4 then show ?thesis by (simp add: action_lines_def step_block_sleep)
  next
    case 5 then show ?thesis by (simp add: action_lines_def step_block_click)
  next
    case 6 then show ?thesis by (simp add: action_lines_def step_block_wait)
  qed
qed

lemma step_annotations_concat:
  "step_annotations (concat bs) = concat (map step_annotations bs)"
  by (induction bs) (simp_all add: step_annotations_def)

lemma actions_lines_blocks:
  assumes "list_all emits_step acts"
  shows "\<exists>bs. length bs = length acts \<and> actions_lines i acts = Inr (concat bs)
     \<and> (\<forall>j<length acts. action_lines (i + j) (acts ! j) = Inr (bs ! j) \<and> step_block (i + j) (bs ! j))"
  using assms
proof (induction acts arbitrary: i)
  case Nil
  then show ?case by simp
next
  case (Cons a acts)
  from Cons.prems have "emits_step a" and rest: "list_all emits_step acts"
    by simp_all
  then obtain b where b: "action_lines i a = Inr b" "step_block i b"
    using emits_step_block by blast
  from Cons.IH [OF rest, of "Suc i"] obtain bs where bs: "length bs = length acts"
      "actions_lines (Suc i) acts = Inr (concat bs)"
      "\<forall>j<length acts. action_lines (Suc i + j) (acts ! j) = Inr (bs ! j)
          \<and> step_block (Suc i + j) (bs ! j)"
    by blast
  have "\<forall>j<length (a # acts). action_lines (i + j) ((a # acts) ! j) = Inr ((b # bs) ! j)
          \<and> step_block (i + j) ((b # bs) ! j)"
  proof (intro allI impI)
    fix j assume "j < length (a # acts)"
    then show "action_lines (i + j) ((a # acts) ! j) = Inr ((b # bs) ! j)
          \<and> step_block (i + j) ((b # bs) ! j)"
      using b bs(3) by (cases j) simp_all
  qed
  moreover have "actions_lines i (a # acts) = Inr (concat (b # bs))"
    using b bs by simp
  moreover have "length (b # bs) = length (a # acts)" using bs by simp
  ultimately show ?case by blast
qed

lemma step_annotations_blocks:
  assumes "\<forall>j<length bs. step_block (f j) (bs ! j)"
  shows "concat (map step_annotations bs) = map hd bs"
  using assms
proof (induction bs arbitrary: f)
  case Nil
  then show ?case by simp
next
  case (Cons b bs)
  have "step_block (f 0) b" using Cons.prems by auto
  moreover have "\<forall>j<length bs. step_block ((f \<circ> Suc) j) (bs ! j)"
    using Cons.prems by auto
  then have "concat (map step_annotations bs) = map hd bs" by (rule Cons.IH)
  ultimately show ?case by (simp add: step_block_def)
qed

subsection \<open>The shape of the output\<close>

text \<open>
  Whenever \<open>generate\<close> succeeds, its lines are the header, then one block per record
  of the log, in log order, each the lines of the loop body for that record, then the
  footer.
\<close>

lemma actions_lines_structure:
  assumes "actions_lines i acts = Inr body"
  shows "\<exists>bs. length bs = length acts \<and> body = concat bs
     \<and> (\<forall>j<length acts. action_lines (i + j) (acts ! j) = Inr (bs ! j))"
  using assms
proof (induction acts arbitrary: i body)
  case Nil
  then show ?case by simp
next
  case (Cons a acts)
  from Cons.prems obtain b later where b: "action_lines i a = Inr b"
      and later: "actions_lines (Suc i) acts = Inr later" and body: "body = b @ later"
    by (auto split: sum.splits)
  from Cons.IH [OF later] obtain bs where bs: "length bs = length acts" "later = concat bs"
      "\<forall>j<length acts. action_lines (Suc i + j) (acts ! j) = Inr (bs ! j)"
    by blast
  have "\<forall>j<length (a # acts). action_lines (i + j) ((a # acts) ! j) = Inr ((b # bs) ! j)"
  proof (intro allI impI)
    fix j assume "j < length (a # acts)"
    then show "action_lines (i + j) ((a # acts) ! j) = Inr ((b # bs) ! j)"
      using b bs(3) by (cases j) simp_all
  qed
  moreover have "length (b # bs) = length (a # acts)" "body = concat (b # bs)"
    using bs body by simp_all
  ultimately show ?case by blast
qed

lemma generate_lines_structure:
  assumes "generate_lines now acts query = Inr ls"
  shows "\<exists>bs. length bs = length acts
     \<and> ls = header_lines now query @ concat bs @ footer_lines
     \<and> (\<forall>j<length acts. action_lines j (acts ! j) = Inr (bs ! j))"
proof -
  from assms obtain body where body: "actions_lines 0 acts = Inr body"
      and ls: "ls = header_lines now query @ body @ footer_lines"
    by (auto simp add: generate_lines_def split: sum.splits)
  from actions_lines_structure [OF body] show ?thesis using ls by auto
qed

subsection \<open>Determinism\<close>

text \<open>
  C3. Two runs of \<open>generate\<close> on the same action list and query differ in nothing but
  the clock reading: the second run fails exactly when the first does, with the same
  error, and otherwise its lines are the lines of the first run with the line at index 2,
  the \<open>Generated from execution on:\<close> line of the header, replaced by the one for
  the second clock reading. The returned text is the join of these lines.
\<close>

theorem generate_deterministic:
  "generate_lines now2 acts query =
     map_sum id (\<lambda>ls. ls[2 := timestamp_line now2]) (generate_lines now1 acts query)
   \<and> generate now2 acts query =
     map_sum id (\<lambda>ls. join_lines (ls[2 := timestamp_line now2])) (generate_lines now1 acts query)"
proof -
  note ts = generate_lines_timestamp [of now2 acts query now1]
  have "generate now2 acts query = map_sum id join_lines (generate_lines now2 acts query)"
    by (cases "generate_lines now2 acts query") (simp_all add: generate_def)
  also have "\<dots> = map_sum id (\<lambda>ls. join_lines (ls[2 := timestamp_line now2]))
      (generate_lines now1 acts query)"
    by (cases "generate_lines now1 acts query") (simp_all add: ts)
  finally show ?thesis using ts by simp
qed

subsection \<open>The returned text\<close>

text \<open>
  \<open>generate\<close> returns the lines joined by line feeds. A block of the lines stands in
  the text between two line feeds; the lines of the text are the joined lines themselves
  when none of them holds a line break; and a record whose lines are the same for two
  logs can be exchanged without changing the text.
\<close>

lemma join_lines_append:
  "xs \<noteq> [] \<Longrightarrow> ys \<noteq> [] \<Longrightarrow> join_lines (xs @ ys) = join_lines xs @ CHR 0x0A # join_lines ys"
proof (induction xs rule: join_lines.induct)
  case 1
  then show ?case by simp
next
  case (2 l)
  then show ?case by (cases ys) simp_all
next
  case (3 l v va)
  then show ?case by simp
qed

lemma script_lines_nonempty: "script_lines s \<noteq> []"
  by (induction s) (simp_all split: list.split)

lemma script_lines_break:
  "is_break c \<Longrightarrow> script_lines (a @ c # b) = script_lines a @ script_lines b"
proof (induction a)
  case Nil
  then show ?case by simp
next
  case (Cons x a)
  then show ?case
    using script_lines_nonempty [of a] by (cases "script_lines a") simp_all
qed

lemma script_lines_no_break: "no_break l \<Longrightarrow> script_lines l = [l]"
  by (induction l) (simp_all add: no_break_def is_break_def)

lemma script_lines_join:
  "ls \<noteq> [] \<Longrightarrow> script_lines (join_lines ls) = concat (map script_lines ls)"
proof (induction ls rule: join_lines.induct)
  case 1
  then show ?case by simp
next
  case (2 l)
  then show ?case by simp
next
  case (3 l v va)
  have "is_break (CHR 0x0A)" by (simp add: is_break_def)
  from script_lines_break [OF this, of l "join_lines (v # va)"] 3 show ?case by simp
qed

lemma script_lines_join_plain:
  assumes "ls \<noteq> []" and "list_all no_break ls"
  shows "script_lines (join_lines ls) = ls"
proof -
  have "concat (map script_lines ls) = ls"
    using assms(2) by (induction ls) (simp_all add: script_lines_no_break)
  then show ?thesis using script_lines_join [OF assms(1)] by simp
qed

lemma no_break_append [simp]: "no_break (a @ b) \<longleftrightarrow> no_break a \<and> no_break b"
  by (simp add: no_break_def)

lemma no_break_Cons [simp]:
  "no_break (c # s) \<longleftrightarrow> c \<noteq> CHR 0x0A \<and> c \<noteq> CHR 0x0D \<and> no_break s"
  by (simp add: no_break_def)

lemma no_break_Nil [simp]: "no_break []"
  by (simp add: no_break_def)

lemma digit_no_break: "n < 10 \<Longrightarrow> digit n \<noteq> CHR 0x0A \<and> digit n \<noteq> CHR 0x0D"
proof -
  assume "n < 10"
  then have "''0123456789'' ! n \<in> set ''0123456789''" by (intro nth_mem) simp
  then show ?thesis unfolding digit_def by auto
qed

lemma no_break_show_nat [simp]: "no_break (show_nat n)"
proof (induction n rule: show_nat.induct)
  case (1 n)
  show ?case
  proof (cases "n < 10")
    case True
    then show ?thesis using digit_no_break [of n] by (subst show_nat.simps) simp
  next
    case False
    then have "no_break (show_nat (n div 10))" using 1 by simp
    moreover have "n mod 10 < 10" by simp
    ultimately show ?thesis
      using False digit_no_break [of "n mod 10"] by (subst show_nat.simps) simp
  qed
qed

lemma no_break_show_int [simp]: "no_break (show_int i)"
  by (simp add: show_int_def)

lemma block_in_text:
  assumes "generate now acts query = Inr text" and "i < length acts"
    and "action_lines i (acts ! i) = Inr b" and "b \<noteq> []"
  shows "\<exists>pre post. text = pre @ CHR 0x0A # join_lines b @ CHR 0x0A # post"
proof -
  from assms(1) obtain ls where ls: "generate_lines now acts query = Inr ls"
      and tx: "text = join_lines ls"
    by (auto simp add: generate_def split: sum.splits)
  from generate_lines_structure [OF ls] obtain bs where bs: "length bs = length acts"
      "ls = header_lines now query @ concat bs @ footer_lines"
      "\<forall>j<length acts. action_lines j (acts ! j) = Inr (bs ! j)"
    by blast
  have bi: "bs ! i = b" using bs(3) assms(2,3) by simp
  have "bs = take i bs @ (bs ! i) # drop (Suc i) bs"
    using assms(2) bs(1) by (simp add: id_take_nth_drop)
  then have "concat bs = concat (take i bs) @ b @ concat (drop (Suc i) bs)"
    using bi by (metis concat.simps(2) concat_append)
  then have split: "ls = (header_lines now query @ concat (take i bs))
      @ (b @ (concat (drop (Suc i) bs) @ footer_lines))"
    using bs(2) by simp
  have h: "header_lines now query @ concat (take i bs) \<noteq> []"
    by (simp add: header_lines_def)
  have f: "concat (drop (Suc i) bs) @ footer_lines \<noteq> []"
    by (simp add: footer_lines_def)
  have "join_lines ls = join_lines (header_lines now query @ concat (take i bs))
      @ CHR 0x0A # join_lines (b @ (concat (drop (Suc i) bs) @ footer_lines))"
    unfolding split using h assms(4) by (intro join_lines_append) simp_all
  also have "join_lines (b @ (concat (drop (Suc i) bs) @ footer_lines))
      = join_lines b @ CHR 0x0A # join_lines (concat (drop (Suc i) bs) @ footer_lines)"
    using assms(4) f by (intro join_lines_append)
  finally show ?thesis unfolding tx by blast
qed

lemma script_lines_plain_lines:
  "list_all no_break ls \<Longrightarrow> concat (map script_lines ls) = ls"
  by (induction ls) (simp_all add: script_lines_no_break)




lemma no_break_indent [simp]: "no_break indent"
  by (simp add: indent_def)

lemma no_break_step_prefix [simp]: "no_break (step_prefix i)"
  by (simp add: step_prefix_def)

lemma no_break_image_click_lines: "list_all no_break image_click_lines"
  by (simp add: image_click_lines_def)

lemma action_lines_no_break:
  assumes "emits_step a" and "single_line a" and "action_lines i a = Inr b"
  shows "list_all no_break b"
proof -
  let ?t = "dict_get a ''type'' PNone"
  from assms(1) consider
      "?t = PStr ''navigate''" | "?t = PStr ''fill''" | "?t = PStr ''press''" | "?t = PStr ''sleep''"
    | "?t = PStr ''click''" "is_str (dict_get a ''element_type'' (PStr ''element''))"
    | "?t = PStr ''wait''" "dict_get a ''wait_type'' (PStr ''load'') = PStr ''load''
        \<or> (dict_get a ''wait_type'' (PStr ''load'') = PStr ''selector''
            \<and> py_truthy (dict_get a ''selector'' PNone))"
    unfolding emits_step_def Let_def by blast
  then show ?thesis
  proof cases
    case 1
    then show ?thesis
      using assms(2,3)
      by (auto simp add: Let_def action_lines_def navigate_lines_def single_line_def embedded_values_def)
  next
    case 2
    then show ?thesis
      using assms(2,3)
      by (auto simp add: Let_def action_lines_def fill_lines_def single_line_def embedded_values_def)
  next
    case 3
    then show ?thesis
      using assms(2,3)
      by (auto simp add: Let_def action_lines_def press_lines_def single_line_def embedded_values_def
          selector_wait_line_def)
  next
    case 4
    then show ?thesis
      using assms(2,3)
      by (auto simp add: Let_def action_lines_def sleep_lines_def single_line_def embedded_values_def)
  next
    case 5
    then obtain et where et: "dict_get a ''element_type'' (PStr ''element'') = PStr et"
      by (cases "dict_get a ''element_type'' (PStr ''element'')") simp_all
    show ?thesis
    proof (cases "str_contains ''product_image'' et \<or> str_contains ''image'' (lower et)")
      case True
      then show ?thesis
        using assms(2,3) 5(1) et no_break_image_click_lines
        by (auto simp add: Let_def action_lines_def click_lines_def single_line_def embedded_values_def)
    next
      case False
      then show ?thesis
        using assms(2,3) 5(1) et
        by (auto simp add: Let_def action_lines_def click_lines_def single_line_def embedded_values_def
            selector_wait_line_def)
    qed
  next
    case 6
    then show ?thesis
      using assms(2,3)
      by (auto simp add: Let_def action_lines_def wait_lines_def single_line_def embedded_values_def)
  qed
qed

lemma header_lines_no_break:
  "no_break now \<Longrightarrow> no_break query \<Longrightarrow> list_all no_break (header_lines now query)"
  by (simp add: header_lines_def timestamp_line_def)

lemma footer_lines_no_break: "list_all no_break footer_lines"
  by (simp add: footer_lines_def)

lemma blocks_no_break:
  assumes "list_all emits_step acts" and "list_all single_line acts"
    and "length bs = length acts"
    and "\<forall>j<length acts. action_lines j (acts ! j) = Inr (bs ! j)"
  shows "list_all no_break (concat bs)"
proof -
  have "\<forall>j<length bs. list_all no_break (bs ! j)"
  proof (intro allI impI)
    fix j assume j: "j < length bs"
    then have "emits_step (acts ! j)" "single_line (acts ! j)"
      using assms(1,2,3) by (simp_all add: list_all_length)
    moreover have "action_lines j (acts ! j) = Inr (bs ! j)" using assms(3,4) j by simp
    ultimately show "list_all no_break (bs ! j)" by (rule action_lines_no_break)
  qed
  then have "\<forall>b\<in>set bs. list_all no_break b" by (metis in_set_conv_nth)
  then show ?thesis by (induction bs) simp_all
qed


lemma generate_returns:
  assumes "list_all emits_step acts"
  shows "\<exists>text. generate now acts query = Inr text"
  using actions_lines_blocks [OF assms, of 0]
  by (auto simp add: generate_def generate_lines_def)

lemma plain_text_simps [simp]:
  "plain_text []"
  "plain_text (c # s) \<longleftrightarrow> c \<noteq> CHR 0x22 \<and> c \<noteq> CHR 0x5C \<and> plain_text s"
  "plain_text (a @ b) \<longleftrightarrow> plain_text a \<and> plain_text b"
  by (simp_all add: plain_text_def)



subsection \<open>The click template\<close>



subsection \<open>One step block per record\<close>

text \<open>
  C5 (as stated, refuted). Both logs hold one record of a known type. The wait record that
  \<open>add_wait("selector")\<close> stores, with no selector, leaves no step annotation in the
  script. The fill record whose text holds a line feed followed by what looks like an
  annotation leaves two lines that start with \<open># Step 1\<close>.
\<close>

theorem step_blocks_not_one_per_record:
  \<open>map_sum id (step_annotations \<circ> script_lines)
      (generate ''2026-01-12 09:40:37'' [bare_selector_wait] []) = Inr []
   \<and> map_sum id (step_annotations \<circ> script_lines)
      (generate ''2026-01-12 09:40:37'' [injected_fill] [])
     = Inr [''        # Step 1: Fill input field'', ''        # Step 1: injected")'']\<close>
proof -
  let ?now = "''2026-01-12 09:40:37''"
  let ?h = "header_lines ?now []"
  have hp: "list_all no_break ?h" by (rule header_lines_no_break) simp_all
  have hs: "concat (map script_lines ?h) = ?h"
    using hp by (rule script_lines_plain_lines)
  have fs: "concat (map script_lines footer_lines) = footer_lines"
    using footer_lines_no_break by (rule script_lines_plain_lines)
  have g1: "generate ?now [bare_selector_wait] [] = Inr (join_lines (?h @ [[]] @ footer_lines))"
    by (simp add: generate_def generate_lines_def bare_selector_wait_def action_lines_def
        wait_lines_def)
  have s1: "script_lines (join_lines (?h @ [[]] @ footer_lines))
      = ?h @ [[]] @ footer_lines"
    using hp footer_lines_no_break by (intro script_lines_join_plain) simp_all
  let ?b = "fill_lines 0 injected_fill"
  have g2: "generate ?now [injected_fill] [] = Inr (join_lines (?h @ ?b @ footer_lines))"
    by (simp add: generate_def generate_lines_def injected_fill_def action_lines_def)
  have "?h @ ?b @ footer_lines \<noteq> []" by (simp add: footer_lines_def)
  then have s2: "script_lines (join_lines (?h @ ?b @ footer_lines))
      = ?h @ concat (map script_lines ?b) @ footer_lines"
    using hs fs by (simp add: script_lines_join)
  have a2: \<open>step_annotations (concat (map script_lines ?b))
      = [''        # Step 1: Fill input field'', ''        # Step 1: injected")'']\<close>
    by (simp add: fill_lines_def injected_fill_def step_prefix_def indent_def is_break_def
        step_annotations_def is_step_line_def show_nat.simps digit_def)
  have "step_annotations ([] # footer_lines) = []"
    using step_annotations_footer by (simp add: step_annotations_def is_step_line_def)
  then have a1: "step_annotations (?h @ [[]] @ footer_lines) = []"
    by (simp add: step_annotations_app step_annotations_header)
  have c1: "(step_annotations \<circ> script_lines) (join_lines (?h @ [[]] @ footer_lines)) = []"
    unfolding comp_def s1 by (rule a1)
  have c2: \<open>(step_annotations \<circ> script_lines) (join_lines (?h @ ?b @ footer_lines))
      = [''        # Step 1: Fill input field'', ''        # Step 1: injected")'']\<close>
    unfolding comp_def s2
    by (simp only: step_annotations_app step_annotations_header step_annotations_footer a2
        append_Nil append_Nil2)
  show ?thesis
    unfolding g1 g2 by (simp only: map_sum.simps id_apply c1 c2)
qed

text \<open>
  C5 (amended). Take a log of navigate, fill, press and sleep records, click records with
  a string as element type, and wait records of kind \<open>load\<close> or of kind \<open>selector\<close>
  with a non-empty selector, where no printed value of a record, nor the time stamp or
  the query, holds a line feed or a carriage return. Then \<open>generate\<close> returns a
  script, and the lines of the script that are step annotations are exactly one per
  record, in log order: the \<open>j\<close>-th starts with \<open># Step j+1:\<close> behind the
  indentation and is the first line of the block emitted for the \<open>j\<close>-th record.
\<close>

theorem one_step_block_per_record:
  assumes "list_all emits_step acts" and "list_all single_line acts"
    and "no_break now" and "no_break query"
  shows "\<exists>text. generate now acts query = Inr text
     \<and> length (step_annotations (script_lines text)) = length acts
     \<and> (\<forall>j<length acts.
           starts_with (''        # Step '' @ show_nat (j + 1) @ '': '')
             (step_annotations (script_lines text) ! j)
           \<and> (\<exists>b. action_lines j (acts ! j) = Inr b
                \<and> step_annotations (script_lines text) ! j = hd b))"
proof -
  from actions_lines_blocks [OF assms(1), of 0] obtain bs where bs: "length bs = length acts"
      "actions_lines 0 acts = Inr (concat bs)"
      "\<forall>j<length acts. action_lines j (acts ! j) = Inr (bs ! j) \<and> step_block j (bs ! j)"
    by auto
  let ?ls = "header_lines now query @ concat bs @ footer_lines"
  have gen: "generate now acts query = Inr (join_lines ?ls)"
    by (simp add: generate_def generate_lines_def bs(2))
  have "list_all no_break (concat bs)"
    using blocks_no_break [OF assms(1,2) bs(1)] bs(3) by simp
  then have plain: "list_all no_break ?ls"
    using header_lines_no_break [OF assms(3,4)] footer_lines_no_break by simp
  have "?ls \<noteq> []" by (simp add: footer_lines_def)
  then have lines: "script_lines (join_lines ?ls) = ?ls"
    using plain by (rule script_lines_join_plain)
  have "\<forall>j<length bs. step_block (id j) (bs ! j)" using bs by simp
  then have "concat (map step_annotations bs) = map hd bs" by (rule step_annotations_blocks)
  then have ann: "step_annotations ?ls = map hd bs"
    by (simp add: step_annotations_app step_annotations_header step_annotations_footer
        step_annotations_concat)
  have "\<forall>j<length acts.
           starts_with (''        # Step '' @ show_nat (j + 1) @ '': '')
             (step_annotations ?ls ! j)
           \<and> (\<exists>b. action_lines j (acts ! j) = Inr b \<and> step_annotations ?ls ! j = hd b)"
    using bs by (simp add: ann step_block_def step_prefix_def indent_def)
  then show ?thesis using gen ann bs(1) lines by simp
qed

theorem one_step_block_per_record_witness:
  "list_all emits_step end_to_end_log
   \<and> list_all single_line end_to_end_log
   \<and> (\<exists>text. generate ''2026-01-12 09:40:37'' end_to_end_log [] = Inr text
         \<and> length (step_annotations (script_lines text)) = 5)"
proof -
  have h: "list_all emits_step end_to_end_log"
    by (simp add: end_to_end_log_def emits_step_def)
  have p: "list_all single_line end_to_end_log"
    by (simp add: end_to_end_log_def single_line_def embedded_values_def lower_def
        lower_char_def)
  have n: "no_break ''2026-01-12 09:40:37''" by simp
  have q: "no_break []" by simp
  from one_step_block_per_record [OF h p n q]
  show ?thesis using h p by (auto simp: end_to_end_log_def)
qed

subsection \<open>The empty log\<close>




subsection \<open>Recorded values are embedded verbatim\<close>

text \<open>
  C10 (as stated, refuted). The selector recorded with a click on a product image occurs
  nowhere in the script of that record.
\<close>

theorem image_click_selector_not_emitted:
  "dict_get product_image_click ''selector'' (PStr []) = PStr ''img (product image)''
   \<and> map_sum id (str_contains ''img (product image)'')
        (generate ''2026-01-12 09:40:37'' [product_image_click] []) = Inr False"
  by (simp add: product_image_click_def generate_def generate_lines_def action_lines_def
      click_lines_def header_lines_def footer_lines_def image_click_lines_def
      timestamp_line_def step_prefix_def indent_def show_nat.simps digit_def)

text \<open>
  C10 (amended). Let \<open>generate\<close> return a script for a log with record \<open>i\<close>. When the
  record is a navigate record, a click record whose element type does not make it an
  image click, a fill record or a press record, with strings as url, selector, text and
  key, the script holds the block below: the recorded values stand in it character for
  character, between double quotes that nothing escapes. The selector
  \<open>a[aria-label*="Search" i]\<close>, which the search agent records on apple.com, holds a
  double quote and is not the body of a double-quoted string literal.
\<close>

theorem values_embedded_verbatim:
  assumes "generate now acts query = Inr text" and "i < length acts"
  shows \<open>(dict_get (acts ! i) ''type'' PNone = PStr ''navigate''
        \<and> dict_get (acts ! i) ''url'' (PStr []) = PStr url
      \<longrightarrow> (\<exists>pre post. text = pre @ CHR 0x0A #
             ''        # Step '' @ show_nat (i + 1) @ '': Navigate to '' @ url @ CHR 0x0A #
             ''        await page.goto("'' @ url @ ''", wait_until="networkidle")'' @ CHR 0x0A #
             ''        await asyncio.sleep(2)'' @ CHR 0x0A #
             CHR 0x0A # post))
   \<and> (dict_get (acts ! i) ''type'' PNone = PStr ''click''
       \<and> dict_get (acts ! i) ''selector'' (PStr []) = PStr selector
       \<and> dict_get (acts ! i) ''element_type'' (PStr ''element'') = PStr element_type
       \<and> \<not> str_contains ''product_image'' element_type
       \<and> \<not> str_contains ''image'' (lower element_type)
      \<longrightarrow> (\<exists>pre post. text = pre @ CHR 0x0A #
             ''        # Step '' @ show_nat (i + 1) @ '': Click '' @ element_type @ CHR 0x0A #
             ''        element = await page.wait_for_selector("'' @ selector
               @ ''", timeout=5000)'' @ CHR 0x0A #
             ''        await element.click()'' @ CHR 0x0A #
             ''        await asyncio.sleep(1)'' @ CHR 0x0A #
             CHR 0x0A # post))
   \<and> (dict_get (acts ! i) ''type'' PNone = PStr ''fill''
       \<and> dict_get (acts ! i) ''selector'' (PStr []) = PStr selector
       \<and> dict_get (acts ! i) ''text'' (PStr []) = PStr txt
      \<longrightarrow> (\<exists>pre post. text = pre @ CHR 0x0A #
             ''        # Step '' @ show_nat (i + 1) @ '': Fill input field'' @ CHR 0x0A #
             ''        input = await page.wait_for_selector("'' @ selector
               @ ''", timeout=5000, state="visible")'' @ CHR 0x0A #
             ''        await input.click()'' @ CHR 0x0A #
             ''        await input.fill("")'' @ CHR 0x0A #
             ''        await input.fill("'' @ txt @ ''")'' @ CHR 0x0A #
             ''        await asyncio.sleep(0.5)'' @ CHR 0x0A #
             CHR 0x0A # post))
   \<and> (dict_get (acts ! i) ''type'' PNone = PStr ''press''
       \<and> dict_get (acts ! i) ''selector'' (PStr []) = PStr selector
       \<and> dict_get (acts ! i) ''key'' (PStr ''Enter'') = PStr key
      \<longrightarrow> (\<exists>pre post. text = pre @ CHR 0x0A #
             ''        # Step '' @ show_nat (i + 1) @ '': Press key '' @ [CHR 0x27] @ key
               @ [CHR 0x27] @ CHR 0x0A #
             ''        element = await page.wait_for_selector("'' @ selector
               @ ''", timeout=5000)'' @ CHR 0x0A #
             ''        await element.press("'' @ key @ ''")'' @ CHR 0x0A #
             ''        await asyncio.sleep(1)'' @ CHR 0x0A #
             CHR 0x0A # post))
   \<and> CHR 0x22 \<in> set apple_search_selector
   \<and> \<not> dq_literal_body apple_search_selector\<close>
proof (intro conjI impI)
  assume h: "dict_get (acts ! i) ''type'' PNone = PStr ''navigate''
        \<and> dict_get (acts ! i) ''url'' (PStr []) = PStr url"
  then have b: "action_lines i (acts ! i) = Inr (navigate_lines i (acts ! i))"
    by (simp add: action_lines_def)
  have "navigate_lines i (acts ! i) \<noteq> []" by (simp add: navigate_lines_def Let_def)
  from block_in_text [OF assms b this] obtain pre post where
    t: "text = pre @ CHR 0x0A # join_lines (navigate_lines i (acts ! i)) @ CHR 0x0A # post"
    by auto
  show \<open>\<exists>pre post. text = pre @ CHR 0x0A #
             ''        # Step '' @ show_nat (i + 1) @ '': Navigate to '' @ url @ CHR 0x0A #
             ''        await page.goto("'' @ url @ ''", wait_until="networkidle")'' @ CHR 0x0A #
             ''        await asyncio.sleep(2)'' @ CHR 0x0A #
             CHR 0x0A # post\<close>
    using h
    by (intro exI [of _ pre] exI [of _ post])
       (simp add: t navigate_lines_def step_prefix_def indent_def Let_def)
next
  assume h: "dict_get (acts ! i) ''type'' PNone = PStr ''click''
       \<and> dict_get (acts ! i) ''selector'' (PStr []) = PStr selector
       \<and> dict_get (acts ! i) ''element_type'' (PStr ''element'') = PStr element_type
       \<and> \<not> str_contains ''product_image'' element_type
       \<and> \<not> str_contains ''image'' (lower element_type)"
  then have b: "action_lines i (acts ! i)
      = Inr [step_prefix i @ ''Click '' @ element_type,
             selector_wait_line selector,
             indent @ ''await element.click()'',
             indent @ ''await asyncio.sleep(1)'',
             []]"
    by (simp add: action_lines_def click_lines_def)
  from block_in_text [OF assms b] obtain pre post where
    t: "text = pre @ CHR 0x0A #
        join_lines [step_prefix i @ ''Click '' @ element_type,
             selector_wait_line selector,
             indent @ ''await element.click()'',
             indent @ ''await asyncio.sleep(1)'',
             []]
        @ CHR 0x0A # post"
    by auto
  show \<open>\<exists>pre post. text = pre @ CHR 0x0A #
             ''        # Step '' @ show_nat (i + 1) @ '': Click '' @ element_type @ CHR 0x0A #
             ''        element = await page.wait_for_selector("'' @ selector
               @ ''", timeout=5000)'' @ CHR 0x0A #
             ''        await element.click()'' @ CHR 0x0A #
             ''        await asyncio.sleep(1)'' @ CHR 0x0A #
             CHR 0x0A # post\<close>
    by (intro exI [of _ pre] exI [of _ post])
       (simp add: t step_prefix_def indent_def selector_wait_line_def)
next
  assume h: "dict_get (acts ! i) ''type'' PNone = PStr ''fill''
       \<and> dict_get (acts ! i) ''selector'' (PStr []) = PStr selector
       \<and> dict_get (acts ! i) ''text'' (PStr []) = PStr txt"
  then have b: "action_lines i (acts ! i) = Inr (fill_lines i (acts ! i))"
    by (simp add: action_lines_def)
  have "fill_lines i (acts ! i) \<noteq> []" by (simp add: fill_lines_def Let_def)
  from block_in_text [OF assms b this] obtain pre post where
    t: "text = pre @ CHR 0x0A # join_lines (fill_lines i (acts ! i)) @ CHR 0x0A # post"
    by auto
  show \<open>\<exists>pre post. text = pre @ CHR 0x0A #
             ''        # Step '' @ show_nat (i + 1) @ '': Fill input field'' @ CHR 0x0A #
             ''        input = await page.wait_for_selector("'' @ selector
               @ ''", timeout=5000, state="visible")'' @ CHR 0x0A #
             ''        await input.click()'' @ CHR 0x0A #
             ''        await input.fill("")'' @ CHR 0x0A #
             ''        await input.fill("'' @ txt @ ''")'' @ CHR 0x0A #
             ''        await asyncio.sleep(0.5)'' @ CHR 0x0A #
             CHR 0x0A # post\<close>
    using h
    by (intro exI [of _ pre] exI [of _ post])
       (simp add: t fill_lines_def step_prefix_def indent_def Let_def)
next
  assume h: "dict_get (acts ! i) ''type'' PNone = PStr ''press''
       \<and> dict_get (acts ! i) ''selector'' (PStr []) = PStr selector
       \<and> dict_get (acts ! i) ''key'' (PStr ''Enter'') = PStr key"
  then have b: "action_lines i (acts ! i) = Inr (press_lines i (acts ! i))"
    by (simp add: action_lines_def)
  have "press_lines i (acts ! i) \<noteq> []" by (simp add: press_lines_def Let_def)
  from block_in_text [OF assms b this] obtain pre post where
    t: "text = pre @ CHR 0x0A # join_lines (press_lines i (acts ! i)) @ CHR 0x0A # post"
    by auto
  show \<open>\<exists>pre post. text = pre @ CHR 0x0A #
             ''        # Step '' @ show_nat (i + 1) @ '': Press key '' @ [CHR 0x27] @ key
               @ [CHR 0x27] @ CHR 0x0A #
             ''        element = await page.wait_for_selector("'' @ selector
               @ ''", timeout=5000)'' @ CHR 0x0A #
             ''        await element.press("'' @ key @ ''")'' @ CHR 0x0A #
             ''        await asyncio.sleep(1)'' @ CHR 0x0A #
             CHR 0x0A # post\<close>
    using h
    by (intro exI [of _ pre] exI [of _ post])
       (simp add: t press_lines_def step_prefix_def indent_def selector_wait_line_def Let_def)
next
  show "CHR 0x22 \<in> set apple_search_selector" by (simp add: apple_search_selector_def)
next
  show "\<not> dq_literal_body apple_search_selector" by (simp add: apple_search_selector_def)
qed

theorem values_embedded_verbatim_witness:
  \<open>\<exists>text. generate ''2026-01-11 19:05:58'' apple_session_log [] = Inr text
     \<and> (\<exists>pre post. text = pre @ CHR 0x0A #
            ''        # Step 1: Navigate to https://www.apple.com'' @ CHR 0x0A #
            ''        await page.goto("https://www.apple.com", wait_until="networkidle")''
              @ CHR 0x0A #
            ''        await asyncio.sleep(2)'' @ CHR 0x0A #
            CHR 0x0A # post)
     \<and> (\<exists>pre post. text = pre @ CHR 0x0A #
            ''        # Step 2: Click search_icon'' @ CHR 0x0A #
            ''        element = await page.wait_for_selector("a[aria-label*="Search" i]", timeout=5000)''
              @ CHR 0x0A #
            ''        await element.click()'' @ CHR 0x0A #
            ''        await asyncio.sleep(1)'' @ CHR 0x0A #
            CHR 0x0A # post)
     \<and> (\<exists>pre post. text = pre @ CHR 0x0A #
            ''        # Step 3: Fill input field'' @ CHR 0x0A #
            ''        input = await page.wait_for_selector("input[aria-label*="Search" i]", timeout=5000, state="visible")''
              @ CHR 0x0A #
            ''        await input.click()'' @ CHR 0x0A #
            ''        await input.fill("")'' @ CHR 0x0A #
            ''        await input.fill("iPhone 17")'' @ CHR 0x0A #
            ''        await asyncio.sleep(0.5)'' @ CHR 0x0A #
            CHR 0x0A # post)
     \<and> (\<exists>pre post. text = pre @ CHR 0x0A #
            ''        # Step 4: Press key '' @ [CHR 0x27] @ ''Enter'' @ [CHR 0x27] @ CHR 0x0A #
            ''        element = await page.wait_for_selector("input[aria-label*="Search" i]", timeout=5000)''
              @ CHR 0x0A #
            ''        await element.press("Enter")'' @ CHR 0x0A #
            ''        await asyncio.sleep(1)'' @ CHR 0x0A #
            CHR 0x0A # post)\<close>
proof -
  let ?now = "''2026-01-11 19:05:58''"
  have "list_all emits_step apple_session_log"
    by (simp add: apple_session_log_def emits_step_def)
  from generate_returns [OF this] obtain script
    where g: "generate ?now apple_session_log [] = Inr script" by blast
  note defs = apple_session_log_def apple_search_selector_def apple_input_selector_def
    show_nat.simps digit_def lower_def lower_char_def
  from values_embedded_verbatim [OF g, of 0 "''https://www.apple.com''"]
  have w0: \<open>\<exists>pre post. script = pre @ CHR 0x0A #
            ''        # Step 1: Navigate to https://www.apple.com'' @ CHR 0x0A #
            ''        await page.goto("https://www.apple.com", wait_until="networkidle")''
              @ CHR 0x0A #
            ''        await asyncio.sleep(2)'' @ CHR 0x0A #
            CHR 0x0A # post\<close>
    by (simp add: defs)
  from values_embedded_verbatim [OF g, of 1 _ apple_search_selector "''search_icon''"]
  have w1: \<open>\<exists>pre post. script = pre @ CHR 0x0A #
            ''        # Step 2: Click search_icon'' @ CHR 0x0A #
            ''        element = await page.wait_for_selector("a[aria-label*="Search" i]", timeout=5000)''
              @ CHR 0x0A #
            ''        await element.click()'' @ CHR 0x0A #
            ''        await asyncio.sleep(1)'' @ CHR 0x0A #
            CHR 0x0A # post\<close>
    by (simp add: defs)
  from values_embedded_verbatim [OF g, of 2 _ apple_input_selector _ "''iPhone 17''"]
  have w2: \<open>\<exists>pre post. script = pre @ CHR 0x0A #
            ''        # Step 3: Fill input field'' @ CHR 0x0A #
            ''        input = await page.wait_for_selector("input[aria-label*="Search" i]", timeout=5000, state="visible")''
              @ CHR 0x0A #
            ''        await input.click()'' @ CHR 0x0A #
            ''        await input.fill("")'' @ CHR 0x0A #
            ''        await input.fill("iPhone 17")'' @ CHR 0x0A #
            ''        await asyncio.sleep(0.5)'' @ CHR 0x0A #
            CHR 0x0A # post\<close>
    by (simp add: defs)
  from values_embedded_verbatim [OF g, of 3 _ apple_input_selector _ _ "''Enter''"]
  have w3: \<open>\<exists>pre post. script = pre @ CHR 0x0A #
            ''        # Step 4: Press key '' @ [CHR 0x27] @ ''Enter'' @ [CHR 0x27] @ CHR 0x0A #
            ''        element = await page.wait_for_selector("input[aria-label*="Search" i]", timeout=5000)''
              @ CHR 0x0A #
            ''        await element.press("Enter")'' @ CHR 0x0A #
            ''        await asyncio.sleep(1)'' @ CHR 0x0A #
            CHR 0x0A # post\<close>
    by (simp add: defs)
  show ?thesis using g w0 w1 w2 w3 by blast
qed

section \<open>Properties of the search agent\<close>

subsection \<open>Calls and results of the strategies\<close>

lemma perform_calls: "calls (snd (perform c f s)) = calls s @ [c]"
  by (simp add: perform_def split: prod.split)

lemma perform_inference:
  "\<not> is_chat c \<Longrightarrow> inference_calls (snd (perform c f s)) = inference_calls s"
  using perform_calls [of c f s] by (simp add: inference_calls_def)

lemma query_selector_inference:
  "query_selector b sel s = (r, s1) \<Longrightarrow> inference_calls s1 = inference_calls s"
  using perform_inference [of "QuerySelector sel" "page_query_selector b sel" s]
  by (simp add: query_selector_def)

lemma wait_for_selector_inference:
  "wait_for_selector b sel ms s = (r, s1) \<Longrightarrow> inference_calls s1 = inference_calls s"
  using perform_inference [of "WaitForSelector sel ms" "page_wait_for_selector b sel ms" s]
  by (simp add: wait_for_selector_def)

lemma is_visible_inference:
  "is_visible b h s = (r, s1) \<Longrightarrow> inference_calls s1 = inference_calls s"
  using perform_inference [of "IsVisible h" "handle_is_visible b h" s]
  by (simp add: is_visible_def)

lemma click_inference:
  "click b h s = (r, s1) \<Longrightarrow> inference_calls s1 = inference_calls s"
  using perform_inference [of "Click h" "handle_click b h" s]
  by (simp add: click_def)

lemma evaluate_inference:
  "evaluate b h js s = (r, s1) \<Longrightarrow> inference_calls s1 = inference_calls s"
  using perform_inference [of "Evaluate h js" "handle_evaluate b h js" s]
  by (simp add: evaluate_def)

lemma sleep_inference: "inference_calls (sleep b ms s) = inference_calls s"
  using perform_calls [of "Sleep ms" "\<lambda>w. ((), asyncio_sleep b ms w)" s]
  by (simp add: sleep_def inference_calls_def)

lemma click_search_icon_inference:
  "inference_calls (click_search_icon b sels s) = inference_calls s"
proof (induction sels arbitrary: s)
  case Nil
  then show ?case by simp
next
  case (Cons sel rest)
  obtain r s1 where q: "query_selector b sel s = (r, s1)" by (cases "query_selector b sel s")
  note i1 = query_selector_inference [OF q]
  show ?case
  proof (cases r)
    case Raises
    then show ?thesis using Cons.IH [of s1] i1 by (simp add: q)
  next
    case (Returns found)
    show ?thesis
    proof (cases found)
      case None
      then show ?thesis using Cons.IH [of s1] i1 by (simp add: q Returns)
    next
      case (Some icon)
      obtain v s2 where v: "is_visible b icon s1 = (v, s2)" by (cases "is_visible b icon s1")
      note i2 = is_visible_inference [OF v]
      show ?thesis
      proof (cases "v = Returns True")
        case True
        obtain c s3 where c: "click b icon s2 = (c, s3)" by (cases "click b icon s2")
        note i3 = click_inference [OF c]
        show ?thesis
          using Cons.IH [of s3] i1 i2 i3
          by (cases c) (simp_all add: q Returns Some v True c sleep_inference)
      next
        case False
        then show ?thesis
          using Cons.IH [of s2] i1 i2
          by (cases v) (auto simp add: q Returns Some v)
      qed
    qed
  qed
qed

lemma find_apple_input_inference:
  "inference_calls (snd (find_apple_input b sels s)) = inference_calls s"
proof (induction sels arbitrary: s)
  case Nil
  then show ?case by simp
next
  case (Cons sel rest)
  obtain r s1 where w: "wait_for_selector b sel 3000 s = (r, s1)"
    by (cases "wait_for_selector b sel 3000 s")
  note i1 = wait_for_selector_inference [OF w]
  show ?case
    using Cons.IH [of s1] i1
    by (simp add: w split: outcome.split option.split)
qed

lemma apple_specific_search_inference:
  "inference_calls (snd (apple_specific_search b s)) = inference_calls s"
  by (simp add: apple_specific_search_def Let_def find_apple_input_inference
      click_search_icon_inference)

lemma evaluate_all_inference:
  "inference_calls (snd (evaluate_all b element scripts s)) = inference_calls s"
proof (induction scripts arbitrary: s)
  case Nil
  then show ?case by simp
next
  case (Cons js rest)
  obtain r s1 where e: "evaluate b element js s = (r, s1)" by (cases "evaluate b element js s")
  note i1 = evaluate_inference [OF e]
  show ?case using Cons.IH [of s1] i1 by (simp add: e split: outcome.split)
qed

lemma find_button_inference:
  "inference_calls (snd (find_button b sels s)) = inference_calls s"
proof (induction sels arbitrary: s)
  case Nil
  then show ?case by simp
next
  case (Cons sel rest)
  obtain r s1 where q: "query_selector b sel s = (r, s1)" by (cases "query_selector b sel s")
  note i1 = query_selector_inference [OF q]
  show ?case using Cons.IH [of s1] i1 by (simp add: q split: outcome.split option.split)
qed

lemma try_common_selectors_inference:
  "inference_calls (snd (try_common_selectors b sels s)) = inference_calls s"
proof (induction sels arbitrary: s)
  case Nil
  then show ?case by simp
next
  case (Cons sel rest)
  obtain r s1 where w: "wait_for_selector b sel 2000 s = (r, s1)"
    by (cases "wait_for_selector b sel 2000 s")
  note i1 = wait_for_selector_inference [OF w]
  have rec: "inference_calls (snd (try_common_selectors b rest s1)) = inference_calls s"
    using Cons.IH [of s1] i1 by simp
  show ?case
  proof (cases r)
    case Raises
    then show ?thesis using rec by (simp add: w)
  next
    case (Returns found)
    show ?thesis
    proof (cases found)
      case None
      then show ?thesis using rec by (simp add: w Returns)
    next
      case (Some element)
      obtain e s2 where e: "evaluate_all b element element_info_scripts s1 = (e, s2)"
        by (cases "evaluate_all b element element_info_scripts s1")
      have i2: "inference_calls s2 = inference_calls s"
        using evaluate_all_inference [of b element element_info_scripts s1] e i1 by simp
      obtain btn s3 where f: "find_button b (button_selectors sel) s2 = (btn, s3)"
        by (cases "find_button b (button_selectors sel) s2")
      have i3: "inference_calls s3 = inference_calls s"
        using find_button_inference [of b "button_selectors sel" s2] f i2 by simp
      show ?thesis
        using Cons.IH [of s2] i2 i3
        by (cases e) (simp_all add: w Returns Some e f)
    qed
  qed
qed

lemma wait_for_selector_fst:
  "fst (wait_for_selector b sel ms s) = fst (page_wait_for_selector b sel ms (world s))"
  by (simp add: wait_for_selector_def perform_def split: prod.split)

lemma evaluate_fst:
  "fst (evaluate b h js s) = fst (handle_evaluate b h js (world s))"
  by (simp add: evaluate_def perform_def split: prod.split)



lemma try_common_selectors_tagged:
  "try_common_selectors b sels s = (Some result, s1) \<Longrightarrow> tagged ''direct_selector'' result"
proof (induction sels arbitrary: s)
  case Nil
  then show ?case by simp
next
  case (Cons sel rest)
  obtain r s2 where w: "wait_for_selector b sel 2000 s = (r, s2)"
    by (cases "wait_for_selector b sel 2000 s")
  show ?case
  proof (cases "\<exists>element. r = Returns (Some element)")
    case True
    then obtain element where r: "r = Returns (Some element)" by blast
    obtain e s3 where e: "evaluate_all b element element_info_scripts s2 = (e, s3)"
      by (cases "evaluate_all b element element_info_scripts s2")
    show ?thesis
    proof (cases e)
      case Raises
      then show ?thesis using Cons.IH [of s3] Cons.prems by (simp add: w r e)
    next
      case (Returns u)
      then show ?thesis
        using Cons.prems by (auto simp add: w r e tagged_def split: prod.splits)
    qed
  next
    case False
    then have "try_common_selectors b (sel # rest) s = try_common_selectors b rest s2"
      by (cases r) (auto simp add: w split: option.split)
    then show ?thesis using Cons.IH [of s2] Cons.prems by simp
  qed
qed

lemma evaluate_all_returns:
  assumes "\<forall>js w. fst (handle_evaluate b element js w) \<noteq> Raises"
  shows "fst (evaluate_all b element scripts s) = Returns ()"
proof (induction scripts arbitrary: s)
  case Nil
  then show ?case by simp
next
  case (Cons js rest)
  obtain r s1 where e: "evaluate b element js s = (r, s1)" by (cases "evaluate b element js s")
  then have "r \<noteq> Raises" using assms evaluate_fst [of b element js s] by simp
  then show ?case using Cons.IH [of s1] by (cases r) (simp_all add: e)
qed

lemma try_common_selectors_finds:
  assumes "selector \<in> set sels" and "visible_match b selector"
  shows "fst (try_common_selectors b sels s) \<noteq> None"
  using assms(1)
proof (induction sels arbitrary: s)
  case Nil
  then show ?case by simp
next
  case (Cons sel rest)
  obtain r s2 where w: "wait_for_selector b sel 2000 s = (r, s2)"
    by (cases "wait_for_selector b sel 2000 s")
  then have fr: "fst (page_wait_for_selector b sel 2000 (world s)) = r"
    using wait_for_selector_fst [of b sel 2000 s] by simp
  show ?case
  proof (cases "\<exists>element. r = Returns (Some element)")
    case True
    then obtain element where r: "r = Returns (Some element)" by blast
    obtain e s3 where e: "evaluate_all b element element_info_scripts s2 = (e, s3)"
      by (cases "evaluate_all b element element_info_scripts s2")
    show ?thesis
    proof (cases e)
      case Raises
      have "selector \<noteq> sel"
      proof
        assume "selector = sel"
        with assms(2) fr r have "\<forall>js w. fst (handle_evaluate b element js w) \<noteq> Raises"
          unfolding visible_match_def by (metis option.inject outcome.inject)
        from evaluate_all_returns [OF this, of element_info_scripts s2] e Raises
        show False by simp
      qed
      then have "selector \<in> set rest" using Cons.prems by simp
      then show ?thesis using Cons.IH [of s3] by (simp add: w r e Raises)
    next
      case (Returns u)
      then show ?thesis by (simp add: w r e split: prod.split)
    qed
  next
    case False
    have "selector \<noteq> sel"
    proof
      assume "selector = sel"
      with assms(2) fr have "\<exists>element. r = Returns (Some element)"
        unfolding visible_match_def by metis
      with False show False by simp
    qed
    then have "selector \<in> set rest" using Cons.prems by simp
    moreover have "try_common_selectors b (sel # rest) s = try_common_selectors b rest s2"
      using False by (cases r) (auto simp add: w split: option.split)
    ultimately show ?thesis using Cons.IH [of s2] by simp
  qed
qed



subsection \<open>Strategy precedence\<close>

text \<open>
  C6 (as stated, refuted). On a page of apple.com the vendor-specific branch runs first.
  The selector \<open>input[name='q']\<close> is one of the generic patterns and has a visible
  match on \<open>apple_page\<close>, yet the result carries the tag \<open>apple_specific\<close>, not
  \<open>direct_selector\<close>.
\<close>

theorem apple_page_tagged_apple_specific:
  \<open>''input[name='q']'' \<in> set common_selectors
   \<and> visible_match apple_page ''input[name='q']''
   \<and> tagged ''apple_specific'' (fst (find_search_box_universal apple_page start_session))
   \<and> fst (find_search_box_universal apple_page start_session) ''method''
       \<noteq> Some (PStr ''direct_selector'')\<close>
proof -
  have c: \<open>''input[name='q']'' \<in> set common_selectors\<close>
    by (simp add: common_selectors_def)
  have v: \<open>visible_match apple_page ''input[name='q']''\<close>
    by (simp add: visible_match_def apple_page_def blank_page_def)
  have f: \<open>fst (find_apple_input apple_page apple_input_selectors s)
      = Some [''found'' \<mapsto> PBool True,
              ''input_selector'' \<mapsto> PStr ''input[name='q']'',
              ''button_selector'' \<mapsto>
                 PStr ''button.ac-gn-searchform-submit, button[type='submit']'',
              ''method'' \<mapsto> PStr ''apple_specific'']\<close> for s
    by (simp add: apple_input_selectors_def apple_page_def blank_page_def
        wait_for_selector_def perform_def)
  have u: "str_contains ''apple.com'' (lower (page_url apple_page ()))"
    by (simp add: apple_page_def blank_page_def lower_def lower_char_def)
  obtain r s1 where a: "apple_specific_search apple_page start_session = (Some r, s1)"
      and r: "tagged ''apple_specific'' r"
    using f [of "click_search_icon apple_page apple_search_icons start_session"] u
    by (cases "find_apple_input apple_page apple_input_selectors
                 (click_search_icon apple_page apple_search_icons start_session)")
       (simp add: apple_specific_search_def start_session_def tagged_def)
  have "fst (find_search_box_universal apple_page start_session) = r"
    by (simp add: find_search_box_universal_def a)
  then show ?thesis using c v r by (simp add: tagged_def)
qed

text \<open>
  C6 (amended). When the apple.com branch returns nothing (the page is not of apple.com,
  or none of its inputs shows up) and one of the generic patterns has a visible match
  whose tag, type, name and id can be read, \<open>find_search_box_universal\<close> returns a
  result tagged \<open>direct_selector\<close>, and the session holds no call to the inference
  service that it did not hold before.
\<close>

theorem tier2_match_skips_inference:
  assumes "fst (apple_specific_search b s) = None"
    and "selector \<in> set common_selectors"
    and "visible_match b selector"
  shows "tagged ''direct_selector'' (fst (find_search_box_universal b s))
         \<and> inference_calls (snd (find_search_box_universal b s)) = inference_calls s"
proof -
  obtain s1 where a: "apple_specific_search b s = (None, s1)"
    using assms(1) by (cases "apple_specific_search b s") simp
  have i1: "inference_calls s1 = inference_calls s"
    using apple_specific_search_inference [of b s] a by simp
  obtain t s2 where t: "try_common_selectors b common_selectors s1 = (t, s2)"
    by (cases "try_common_selectors b common_selectors s1")
  then obtain result where r: "t = Some result"
    using try_common_selectors_finds [OF assms(2,3), of s1] by auto
  have "tagged ''direct_selector'' result"
    using try_common_selectors_tagged t r by blast
  moreover have "inference_calls s2 = inference_calls s"
    using try_common_selectors_inference [of b common_selectors s1] t i1 by simp
  ultimately show ?thesis by (simp add: find_search_box_universal_def a t r)
qed

theorem tier2_match_skips_inference_witness:
  "fst (apple_specific_search shop_page start_session) = None
   \<and> ''#search'' \<in> set common_selectors
   \<and> visible_match shop_page ''#search''
   \<and> tagged ''direct_selector'' (fst (find_search_box_universal shop_page start_session))
   \<and> inference_calls (snd (find_search_box_universal shop_page start_session)) = []"
proof -
  have a: "fst (apple_specific_search shop_page start_session) = None"
    by (simp add: apple_specific_search_def shop_page_def blank_page_def start_session_def
        lower_def lower_char_def)
  have c: "''#search'' \<in> set common_selectors"
    by (simp add: common_selectors_def)
  have v: "visible_match shop_page ''#search''"
    by (simp add: visible_match_def shop_page_def blank_page_def)
  from tier2_match_skips_inference [OF a c v]
  show ?thesis using a c v by (simp add: inference_calls_def start_session_def)
qed

subsection \<open>The adjacency search\<close>














lemmas scripts = parent_script_def grandparent_script_def previous_sibling_script_def
  next_sibling_script_def















subsection \<open>Exhaustion\<close>















end
